theory Spec2Isabelle
  imports Complex_Main "HOL-Library.AList" "HOL-Library.Monad_Syntax"
begin

section \<open>External primitives\<close>

text \<open>
  The ledger engine calls three libraries whose code is not part of the repository:
  Node's \<^verbatim>\<open>crypto\<close> (SHA-256), the \<^verbatim>\<open>elliptic\<close> package (secp256k1 keys and ECDSA)
  and the built-in \<^verbatim>\<open>JSON\<close> object; and it computes with the numbers of the JavaScript
  engine. They are taken as parameters, collected in one
  record that every operation receives as its first argument. Nothing is assumed
  about them unless a theorem says so, but for one convention on \<^verbatim>\<open>JSON\<close> that is
  stated with \<^verbatim>\<open>Block.toJSON\<close>. The calls return; \<^verbatim>\<open>Signature.verify\<close> catches what the
  curve throws and answers false, which is an answer of \<open>ec_verify\<close> here.

  The numbers of the source are IEEE 754 doubles. A number of the model is the value
  of a finite double. An addition, subtraction or division of the source is the exact
  operation followed by the rounding of the engine to the nearest double; that
  rounding, \<open>round_double\<close>, is the last primitive, and nothing is assumed about it
  either. NaN, the infinities and results that overflow are outside the model.
  Counters (heights, nonces, indices, time stamps, versions) are integers, on which
  the arithmetic of the source is exact.

  JavaScript values that reach \<^verbatim>\<open>JSON.stringify\<close> are represented by the tree below.
  A property whose value is \<^verbatim>\<open>undefined\<close> is left out of the object, as
  \<^verbatim>\<open>JSON.stringify\<close> does.
\<close>

datatype json =
    JNull
  | JNum real
  | JStr string
  | JArr "json list"
  | JObj "(string \<times> json) list"

record prims =
  sha256 :: "string \<Rightarrow> string"
  stringify :: "json \<Rightarrow> string"
  stringify_pretty :: "json \<Rightarrow> string"
  parse :: "string \<Rightarrow> json option"
  ec_public :: "string \<Rightarrow> string"
  ec_sign :: "string \<Rightarrow> string \<Rightarrow> string"
  ec_verify :: "string \<Rightarrow> string \<Rightarrow> string \<Rightarrow> bool"
  round_double :: "real \<Rightarrow> real"

section \<open>Hash.ts\<close>

text \<open>
  \<^verbatim>\<open>Hash.calculateMerkleRoot\<close>. The inner \<^verbatim>\<open>for (i = 0; i < level.length; i += 2)\<close>
  loop is \<open>merkle_for\<close>, with the index and the \<^verbatim>\<open>nextLevel\<close> array as arguments; the
  outer \<^verbatim>\<open>while (level.length > 1)\<close> loop is \<open>merkle_while\<close>.
\<close>

function merkle_for :: "prims \<Rightarrow> string list \<Rightarrow> nat \<Rightarrow> string list \<Rightarrow> string list" where
  "merkle_for env level i nextLevel =
     (if i < length level then
        (if i + 1 < length level
         then merkle_for env level (i + 2)
                (nextLevel @ [sha256 env (level ! i @ level ! (i + 1))])
         else merkle_for env level (i + 2)
                (nextLevel @ [sha256 env (level ! i @ level ! i)]))
      else nextLevel)"
  by pat_completeness auto
termination
  by (relation "measure (\<lambda>(env, level, i, nextLevel). length level - i)") auto

declare merkle_for.simps [simp del]

lemma length_merkle_for:
  "length (merkle_for env level i acc) = length acc + (length level - i + 1) div 2"
proof (induction env level i acc rule: merkle_for.induct)
  case (1 env level i nextLevel)
  show ?case
  proof (cases "i < length level")
    case False
    then show ?thesis by (simp add: merkle_for.simps [of env level i nextLevel])
  next
    case True
    note lt = this
    show ?thesis
    proof (cases "i + 1 < length level")
      case True
      with lt "1.IH"(1) show ?thesis
        by (simp add: merkle_for.simps [of env level i nextLevel])
    next
      case False
      with lt "1.IH"(2) show ?thesis
        by (simp add: merkle_for.simps [of env level i nextLevel])
    qed
  qed
qed

function merkle_while :: "prims \<Rightarrow> string list \<Rightarrow> string list" where
  "merkle_while env level =
     (if length level > 1 then merkle_while env (merkle_for env level 0 []) else level)"
  by pat_completeness auto
termination
  by (relation "measure (\<lambda>(env, level). length level)")
     (auto simp: length_merkle_for)

declare merkle_while.simps [simp del]

text \<open>
  The final \<^verbatim>\<open>return level[0]\<close> reads an array that the loop leaves with exactly one
  element (lemma \<open>length_merkle_while\<close> below); the branch for an empty array, where
  JavaScript would yield \<^verbatim>\<open>undefined\<close>, is never taken.
\<close>

definition calculateMerkleRoot :: "prims \<Rightarrow> string list \<Rightarrow> string" where
  "calculateMerkleRoot env transactions =
     (if length transactions = 0 then sha256 env ''''
      else if length transactions = 1 then sha256 env (transactions ! 0)
      else (case merkle_while env (map (sha256 env) transactions) of
              [] \<Rightarrow> ''undefined''
            | first # _ \<Rightarrow> first))"

text \<open>\<^verbatim>\<open>Hash.meetsDifficulty\<close>: \<^verbatim>\<open>hash.substring(0, difficulty) === '0'.repeat(difficulty)\<close>.\<close>

definition meetsDifficulty :: "string \<Rightarrow> nat \<Rightarrow> bool" where
  "meetsDifficulty hash difficulty = (take difficulty hash = replicate difficulty CHR ''0'')"

text \<open>\<^verbatim>\<open>String.prototype.startsWith\<close>, used by the mining loop.\<close>

definition startsWith :: "string \<Rightarrow> string \<Rightarrow> bool" where
  "startsWith s target = (length target \<le> length s \<and> take (length target) s = target)"

text \<open>\<^verbatim>\<open>Hash.adjustDifficulty\<close>.\<close>

definition adjustDifficulty_hash :: "prims \<Rightarrow> nat \<Rightarrow> real \<Rightarrow> real \<Rightarrow> nat" where
  "adjustDifficulty_hash env currentDifficulty timeExpected timeActual =
     (let ratio = round_double env (timeActual / timeExpected) in
      if ratio > 4 then max 1 (currentDifficulty - 1)
      else if ratio < 0.25 then currentDifficulty + 1
      else currentDifficulty)"

subsection \<open>The Merkle root as the specification words it\<close>

text \<open>
  A second definition, written from the specification and not from the code: the tree
  is built bottom-up from the hashed ids; a level with an odd number of nodes first
  gets its last node duplicated, then neighbours are concatenated and hashed.
\<close>

fun pairs :: "'a list \<Rightarrow> ('a \<times> 'a) list" where
  "pairs (a # b # rest) = (a, b) # pairs rest"
| "pairs _ = []"

definition spec_pad :: "'a list \<Rightarrow> 'a list" where
  "spec_pad level = (if odd (length level) then level @ [last level] else level)"

definition spec_level :: "(string \<Rightarrow> string) \<Rightarrow> string list \<Rightarrow> string list" where
  "spec_level H level = map (\<lambda>(a, b). H (a @ b)) (pairs (spec_pad level))"

lemma length_pairs: "length (pairs xs) = length xs div 2"
  by (induction xs rule: pairs.induct) auto

lemma length_spec_level: "length (spec_level H level) = (length level + 1) div 2"
  by (auto simp: spec_level_def spec_pad_def length_pairs elim: oddE)

function spec_reduce :: "(string \<Rightarrow> string) \<Rightarrow> string list \<Rightarrow> string list" where
  "spec_reduce H level = (if length level \<le> 1 then level else spec_reduce H (spec_level H level))"
  by pat_completeness auto
termination
  by (relation "measure (\<lambda>(H, level). length level)") (auto simp: length_spec_level)

declare spec_reduce.simps [simp del]

definition spec_merkleRoot :: "(string \<Rightarrow> string) \<Rightarrow> string list \<Rightarrow> string" where
  "spec_merkleRoot H ids =
     (case ids of
        [] \<Rightarrow> H ''''
      | [x] \<Rightarrow> H x
      | _ \<Rightarrow> hd (spec_reduce H (map H ids)))"

section \<open>Transaction.ts\<close>

text \<open>
  Field names carry a prefix (\<open>in_\<close>, \<open>out_\<close>, \<open>tx_\<close>) because the interfaces of the source
  share names (\<^verbatim>\<open>amount\<close>, \<^verbatim>\<open>txId\<close>, \<^verbatim>\<open>timestamp\<close>) and \<^verbatim>\<open>id\<close> is a function of HOL.
  Amounts and the fee are \<^verbatim>\<open>number\<close>s with fractional values and are reals; time stamps,
  the version, the lock time and output indices are integers. An optional property
  (\<^verbatim>\<open>scriptSig?\<close>, \<^verbatim>\<open>data?\<close>) is an \<open>option\<close>, \<open>None\<close> standing for \<^verbatim>\<open>undefined\<close>.
\<close>

record TransactionInput =
  in_txId :: string
  in_outputIndex :: int
  in_signature :: string
  in_publicKey :: string
  in_amount :: real
  in_scriptSig :: "string option"

record TransactionOutput =
  out_address :: string
  out_amount :: real
  out_scriptPubKey :: "string option"

record Transaction =
  tx_id :: string
  tx_timestamp :: int
  tx_inputs :: "TransactionInput list"
  tx_outputs :: "TransactionOutput list"
  tx_fee :: real
  tx_version :: int
  tx_lockTime :: int
  tx_data :: "string option"

text \<open>
  What a call can throw. \<open>Error msg\<close> is \<^verbatim>\<open>new Error(msg)\<close>; \<open>TypeError\<close> is the
  engine's error on reading a property of \<^verbatim>\<open>undefined\<close>; \<open>SyntaxError\<close> is
  \<^verbatim>\<open>JSON.parse\<close> on a malformed text. \<open>IllTyped\<close> is not an exception: it marks a call
  that returns an object which does not inhabit its declared TypeScript type (a
  deserialised document with missing or wrongly typed properties).
\<close>

datatype error = Error string | TypeError | SyntaxError | IllTyped

definition optional :: "string \<Rightarrow> string option \<Rightarrow> (string \<times> json) list" where
  "optional k v = (case v of None \<Rightarrow> [] | Some s \<Rightarrow> [(k, JStr s)])"

text \<open>The object literal that \<^verbatim>\<open>calculateHash\<close> builds for every input: no signature.\<close>

definition input_payload :: "TransactionInput \<Rightarrow> json" where
  "input_payload input =
     JObj [(''txId'', JStr (in_txId input)),
           (''outputIndex'', JNum (of_int (in_outputIndex input))),
           (''amount'', JNum (in_amount input)),
           (''publicKey'', JStr (in_publicKey input))]"

definition output_json :: "TransactionOutput \<Rightarrow> json" where
  "output_json output =
     JObj ([(''address'', JStr (out_address output)),
            (''amount'', JNum (out_amount output))]
           @ optional ''scriptPubKey'' (out_scriptPubKey output))"

definition txData :: "Transaction \<Rightarrow> json" where
  "txData t =
     JObj [(''timestamp'', JNum (of_int (tx_timestamp t))),
           (''inputs'', JArr (map input_payload (tx_inputs t))),
           (''outputs'', JArr (map output_json (tx_outputs t))),
           (''version'', JNum (of_int (tx_version t))),
           (''lockTime'', JNum (of_int (tx_lockTime t))),
           (''data'', JStr (case tx_data t of None \<Rightarrow> [] | Some d \<Rightarrow> d))]"

definition calculateHash :: "prims \<Rightarrow> Transaction \<Rightarrow> string" where
  "calculateHash env t = sha256 env (stringify env (txData t))"

text \<open>
  The constructor; \<open>now\<close> is the reading of \<^verbatim>\<open>Date.now()\<close>. A missing \<^verbatim>\<open>inputs\<close> or
  \<^verbatim>\<open>outputs\<close> argument is the empty list (the default parameter).
\<close>

definition Transaction_new ::
  "prims \<Rightarrow> int \<Rightarrow> TransactionInput list \<Rightarrow> TransactionOutput list \<Rightarrow> string option \<Rightarrow> Transaction" where
  "Transaction_new env now inputs outputs data =
     (let t = \<lparr>tx_id = [], tx_timestamp = now, tx_inputs = inputs, tx_outputs = outputs,
                tx_fee = 0, tx_version = 1, tx_lockTime = 0, tx_data = data\<rparr>
      in t\<lparr>tx_id := calculateHash env t\<rparr>)"

text \<open>\<^verbatim>\<open>Signature.sign\<close> and \<^verbatim>\<open>Signature.verify\<close> hash the data, then call the curve.\<close>

definition Signature_sign :: "prims \<Rightarrow> string \<Rightarrow> string \<Rightarrow> string" where
  "Signature_sign env data privateKey = ec_sign env (sha256 env data) privateKey"

definition Signature_verify :: "prims \<Rightarrow> string \<Rightarrow> string \<Rightarrow> string \<Rightarrow> bool" where
  "Signature_verify env data sig publicKey = ec_verify env (sha256 env data) sig publicKey"

definition signatureData :: "Transaction \<Rightarrow> TransactionInput \<Rightarrow> json" where
  "signatureData t input =
     JObj [(''txId'', JStr (in_txId input)),
           (''outputIndex'', JNum (of_int (in_outputIndex input))),
           (''amount'', JNum (in_amount input)),
           (''timestamp'', JNum (of_int (tx_timestamp t)))]"

text \<open>
  \<^verbatim>\<open>signTransaction\<close>. The only range check of the source is
  \<^verbatim>\<open>inputIndex >= this.inputs.length\<close>. A negative index passes it, \<^verbatim>\<open>this.inputs[inputIndex]\<close>
  is then \<^verbatim>\<open>undefined\<close>, and reading \<^verbatim>\<open>input.publicKey\<close> throws a TypeError. The
  transaction is returned updated on success; on a throw nothing has been assigned.
\<close>

definition signTransaction :: "prims \<Rightarrow> Transaction \<Rightarrow> string \<Rightarrow> int \<Rightarrow> error + Transaction" where
  "signTransaction env t privateKey inputIndex =
     (if inputIndex \<ge> int (length (tx_inputs t)) then Inl (Error ''Input index out of bounds'')
      else if inputIndex < 0 then Inl TypeError
      else
        (let input = tx_inputs t ! nat inputIndex;
             publicKey = ec_public env privateKey
         in if in_publicKey input \<noteq> publicKey
            then Inl (Error ''Private key does not match input public key'')
            else Inr (t\<lparr>tx_inputs := (tx_inputs t)
                     [nat inputIndex := input\<lparr>in_signature :=
                        Signature_sign env (stringify env (signatureData t input)) privateKey\<rparr>]\<rparr>)))"

text \<open>\<^verbatim>\<open>verifySignatures\<close>: the loop over the inputs, leaving at the first failure.\<close>

fun verify_inputs :: "prims \<Rightarrow> Transaction \<Rightarrow> TransactionInput list \<Rightarrow> bool" where
  "verify_inputs env t [] = True"
| "verify_inputs env t (input # rest) =
     (if in_signature input = [] \<or> in_publicKey input = [] then False
      else if \<not> Signature_verify env (stringify env (signatureData t input))
                  (in_signature input) (in_publicKey input) then False
      else verify_inputs env t rest)"

definition verifySignatures :: "prims \<Rightarrow> Transaction \<Rightarrow> bool" where
  "verifySignatures env t = verify_inputs env t (tx_inputs t)"

text \<open>
  \<^verbatim>\<open>calculateFee\<close> stores the fee in the transaction and returns it. The two
  \<^verbatim>\<open>reduce\<close> calls add the amounts from the left, starting at 0, and every addition
  rounds; so does the subtraction.
\<close>

definition inputTotal :: "prims \<Rightarrow> Transaction \<Rightarrow> real" where
  "inputTotal env t =
     foldl (\<lambda>sum input. round_double env (sum + in_amount input)) 0 (tx_inputs t)"

definition outputTotal :: "prims \<Rightarrow> Transaction \<Rightarrow> real" where
  "outputTotal env t =
     foldl (\<lambda>sum output. round_double env (sum + out_amount output)) 0 (tx_outputs t)"

definition computed_fee :: "prims \<Rightarrow> Transaction \<Rightarrow> real" where
  "computed_fee env t = round_double env (inputTotal env t - outputTotal env t)"

definition calculateFee :: "prims \<Rightarrow> Transaction \<Rightarrow> real \<times> Transaction" where
  "calculateFee env t = (computed_fee env t, t\<lparr>tx_fee := computed_fee env t\<rparr>)"

definition zero_hash :: string where
  "zero_hash = replicate 64 CHR ''0''"

definition isCoinbase :: "Transaction \<Rightarrow> bool" where
  "isCoinbase t =
     (length (tx_inputs t) = 1
      \<and> in_txId (tx_inputs t ! 0) = zero_hash
      \<and> in_outputIndex (tx_inputs t ! 0) = -1)"

text \<open>The loop \<^verbatim>\<open>for (const output of this.outputs) if (output.amount <= 0) return false\<close>.\<close>

fun outputs_positive :: "TransactionOutput list \<Rightarrow> bool" where
  "outputs_positive [] = True"
| "outputs_positive (output # rest) =
     (if out_amount output \<le> 0 then False else outputs_positive rest)"

text \<open>
  \<^verbatim>\<open>isValid\<close> returns a boolean and, on the path that reaches \<^verbatim>\<open>this.calculateFee()\<close>,
  assigns \<^verbatim>\<open>this.fee\<close>. \<open>isValid_run\<close> gives both the result and the transaction as the
  call leaves it; \<open>isValid\<close> is the result alone.
\<close>

definition isValid_run :: "prims \<Rightarrow> Transaction \<Rightarrow> bool \<times> Transaction" where
  "isValid_run env t =
     (if length (tx_inputs t) = 0 \<and> length (tx_outputs t) = 0 then (False, t)
      else if isCoinbase t then
        (if outputs_positive (tx_outputs t) then (True, t) else (False, t))
      else if \<not> verifySignatures env t then (False, t)
      else if \<not> outputs_positive (tx_outputs t) then (False, t)
      else (let t' = snd (calculateFee env t)
            in if tx_fee t' < 0 then (False, t') else (True, t')))"

definition isValid :: "prims \<Rightarrow> Transaction \<Rightarrow> bool" where
  "isValid env t = fst (isValid_run env t)"

text \<open>Decimal digits of a natural number, for the template literal of \<^verbatim>\<open>createCoinbase\<close>.\<close>

definition digit :: "nat \<Rightarrow> char" where
  "digit d = char_of (48 + d)"

function decimal :: "nat \<Rightarrow> string" where
  "decimal n = (if n < 10 then [digit n] else decimal (n div 10) @ [digit (n mod 10)])"
  by pat_completeness auto
termination
  by (relation "measure id") auto

declare decimal.simps [simp del]

definition createCoinbase :: "prims \<Rightarrow> int \<Rightarrow> string \<Rightarrow> real \<Rightarrow> nat \<Rightarrow> Transaction" where
  "createCoinbase env now minerAddress reward blockHeight =
     (let coinbaseInput = \<lparr>in_txId = zero_hash, in_outputIndex = -1, in_signature = [],
                           in_publicKey = [], in_amount = reward, in_scriptSig = None\<rparr>;
          coinbaseOutput = \<lparr>out_address = minerAddress, out_amount = reward,
                            out_scriptPubKey = None\<rparr>;
          tx = Transaction_new env now [coinbaseInput] [coinbaseOutput] None;
          tx1 = tx\<lparr>tx_data := Some (''Coinbase for block '' @ decimal blockHeight)\<rparr>
      in tx1\<lparr>tx_id := calculateHash env tx1\<rparr>)"

subsection \<open>Serialisation\<close>

text \<open>
  \<^verbatim>\<open>toJSON\<close> hands an object literal to \<^verbatim>\<open>JSON.stringify\<close>; the inputs and outputs are
  serialised with all their properties, in the order the interfaces list them.
\<close>

definition input_json :: "TransactionInput \<Rightarrow> json" where
  "input_json input =
     JObj ([(''txId'', JStr (in_txId input)),
            (''outputIndex'', JNum (of_int (in_outputIndex input))),
            (''signature'', JStr (in_signature input)),
            (''publicKey'', JStr (in_publicKey input)),
            (''amount'', JNum (in_amount input))]
           @ optional ''scriptSig'' (in_scriptSig input))"

definition tx_json :: "Transaction \<Rightarrow> json" where
  "tx_json t =
     JObj ([(''id'', JStr (tx_id t)),
            (''timestamp'', JNum (of_int (tx_timestamp t))),
            (''inputs'', JArr (map input_json (tx_inputs t))),
            (''outputs'', JArr (map output_json (tx_outputs t))),
            (''fee'', JNum (tx_fee t)),
            (''version'', JNum (of_int (tx_version t))),
            (''lockTime'', JNum (of_int (tx_lockTime t)))]
           @ optional ''data'' (tx_data t))"

definition Transaction_toJSON :: "prims \<Rightarrow> Transaction \<Rightarrow> string" where
  "Transaction_toJSON env t = stringify env (tx_json t)"

text \<open>\<^verbatim>\<open>getSize\<close>: the byte length of the serialised text (a \<open>string\<close> is a list of bytes).\<close>

definition getSize :: "prims \<Rightarrow> Transaction \<Rightarrow> nat" where
  "getSize env t = length (Transaction_toJSON env t)"

text \<open>
  Reading the parsed document back. \<^verbatim>\<open>fromJSON\<close> itself checks nothing: it passes
  \<^verbatim>\<open>data.inputs\<close>, \<^verbatim>\<open>data.outputs\<close> and \<^verbatim>\<open>data.data\<close> to the constructor and copies five
  more properties. The readers below say when the document has the declared types; a
  property of an object is looked up by name.
\<close>

definition property :: "string \<Rightarrow> json \<Rightarrow> json option" where
  "property k v = (case v of JObj members \<Rightarrow> map_of members k | _ \<Rightarrow> None)"



definition as_int :: "json option \<Rightarrow> int option" where
  "as_int v = (case v of Some (JNum r) \<Rightarrow> (if of_int \<lfloor>r\<rfloor> = r then Some \<lfloor>r\<rfloor> else None)
               | _ \<Rightarrow> None)"

definition as_nat :: "json option \<Rightarrow> nat option" where
  "as_nat v = (case as_int v of Some i \<Rightarrow> (if 0 \<le> i then Some (nat i) else None)
               | None \<Rightarrow> None)"








section \<open>Block.ts\<close>

text \<open>
  The difficulty, the nonce and the height count things and are natural numbers; the
  header's time stamp and version are integers.
\<close>

record BlockHeader =
  h_version :: int
  h_previousHash :: string
  h_merkleRoot :: string
  h_timestamp :: int
  h_difficulty :: nat
  h_nonce :: nat
  h_height :: nat

record Block =
  b_header :: BlockHeader
  b_transactions :: "Transaction list"
  b_hash :: string
  b_size :: nat

definition Block_calculateMerkleRoot :: "prims \<Rightarrow> Block \<Rightarrow> string" where
  "Block_calculateMerkleRoot env b =
     (if length (b_transactions b) = 0 then sha256 env []
      else calculateMerkleRoot env (map tx_id (b_transactions b)))"

definition blockData :: "Block \<Rightarrow> json" where
  "blockData b =
     JObj [(''version'', JNum (of_int (h_version (b_header b)))),
           (''previousHash'', JStr (h_previousHash (b_header b))),
           (''merkleRoot'', JStr (h_merkleRoot (b_header b))),
           (''timestamp'', JNum (of_int (h_timestamp (b_header b)))),
           (''difficulty'', JNum (of_nat (h_difficulty (b_header b)))),
           (''nonce'', JNum (of_nat (h_nonce (b_header b)))),
           (''height'', JNum (of_nat (h_height (b_header b))))]"

definition Block_calculateHash :: "prims \<Rightarrow> Block \<Rightarrow> string" where
  "Block_calculateHash env b = sha256 env (stringify env (blockData b))"

definition updateHash :: "prims \<Rightarrow> Block \<Rightarrow> Block" where
  "updateHash env b =
     (let b1 = b\<lparr>b_header := (b_header b)\<lparr>h_merkleRoot := Block_calculateMerkleRoot env b\<rparr>\<rparr>
      in b1\<lparr>b_hash := Block_calculateHash env b1\<rparr>)"

text \<open>
  \<^verbatim>\<open>toJSON\<close>. Every transaction enters the document as \<^verbatim>\<open>JSON.parse(tx.toJSON())\<close>, the
  plain copy of the object that \<^verbatim>\<open>Transaction.toJSON\<close> serialises. That copy is
  taken to be the tree \<open>tx_json tx\<close> itself: \<^verbatim>\<open>JSON.parse\<close> gives back the tree that
  \<^verbatim>\<open>JSON.stringify\<close> was given, which holds of JavaScript for trees of strings and
  finite numbers. (Where the text itself is produced and read by different calls, as
  in the round trips proved below, this property of the library is a stated
  hypothesis.) The document is printed with two-space indentation,
  \<^verbatim>\<open>JSON.stringify(v, null, 2)\<close>.
\<close>

definition header_json :: "BlockHeader \<Rightarrow> json" where
  "header_json h =
     JObj [(''version'', JNum (of_int (h_version h))),
           (''previousHash'', JStr (h_previousHash h)),
           (''merkleRoot'', JStr (h_merkleRoot h)),
           (''timestamp'', JNum (of_int (h_timestamp h))),
           (''difficulty'', JNum (of_nat (h_difficulty h))),
           (''nonce'', JNum (of_nat (h_nonce h))),
           (''height'', JNum (of_nat (h_height h)))]"

definition block_json :: "Block \<Rightarrow> json" where
  "block_json b =
     JObj [(''header'', header_json (b_header b)),
           (''transactions'', JArr (map tx_json (b_transactions b))),
           (''hash'', JStr (b_hash b)),
           (''size'', JNum (of_nat (b_size b)))]"

definition Block_toJSON :: "prims \<Rightarrow> Block \<Rightarrow> string" where
  "Block_toJSON env b = stringify_pretty env (block_json b)"

definition updateSize :: "prims \<Rightarrow> Block \<Rightarrow> Block" where
  "updateSize env b = b\<lparr>b_size := length (Block_toJSON env b)\<rparr>"

text \<open>The constructor; \<open>now\<close> is the reading of \<^verbatim>\<open>Date.now()\<close>.\<close>

definition Block_new :: "prims \<Rightarrow> int \<Rightarrow> Transaction list \<Rightarrow> string \<Rightarrow> nat \<Rightarrow> nat \<Rightarrow> Block" where
  "Block_new env now transactions previousHash height difficulty =
     (let b0 = \<lparr>b_header = \<lparr>h_version = 1, h_previousHash = previousHash, h_merkleRoot = [],
                            h_timestamp = now, h_difficulty = difficulty, h_nonce = 0,
                            h_height = height\<rparr>,
                 b_transactions = transactions, b_hash = [], b_size = 0\<rparr>;
          b1 = b0\<lparr>b_header := (b_header b0)\<lparr>h_merkleRoot := Block_calculateMerkleRoot env b0\<rparr>\<rparr>
      in updateSize env (updateHash env b1))"

text \<open>
  \<^verbatim>\<open>mineBlock\<close>. The search \<^verbatim>\<open>while (!this.hash.startsWith(target))\<close> has no bound in the
  source and need not end, so it is a partial function: \<open>None\<close> is a search that never
  returns. \<^verbatim>\<open>difficulty || this.header.difficulty\<close> takes the header's difficulty when
  the argument is missing or zero.
\<close>

partial_function (option) mine_loop :: "prims \<Rightarrow> string \<Rightarrow> Block \<Rightarrow> Block option" where
  "mine_loop env target b =
     (if startsWith (b_hash b) target then Some b
      else mine_loop env target
             (updateHash env (b\<lparr>b_header := (b_header b)\<lparr>h_nonce := h_nonce (b_header b) + 1\<rparr>\<rparr>)))"

declare mine_loop.simps [code]

definition Block_mineBlock :: "prims \<Rightarrow> Block \<Rightarrow> nat option \<Rightarrow> Block option" where
  "Block_mineBlock env b difficulty =
     (let targetDifficulty =
            (case difficulty of
               None \<Rightarrow> h_difficulty (b_header b)
             | Some d \<Rightarrow> if d = 0 then h_difficulty (b_header b) else d);
          target = replicate targetDifficulty CHR ''0'';
          b0 = updateHash env (b\<lparr>b_header := (b_header b)\<lparr>h_nonce := 0\<rparr>\<rparr>)
      in map_option (updateSize env) (mine_loop env target b0))"

text \<open>
  \<^verbatim>\<open>isValid\<close>. The loop over the transactions calls \<^verbatim>\<open>transaction.isValid()\<close>, which may
  assign the transaction's fee, and leaves at the first invalid one; \<open>validate_all\<close>
  returns the result together with the transactions as the loop leaves them.
\<close>

fun validate_all :: "prims \<Rightarrow> Transaction list \<Rightarrow> bool \<times> Transaction list" where
  "validate_all env [] = (True, [])"
| "validate_all env (t # ts) =
     (case isValid_run env t of
        (ok, t') \<Rightarrow>
          if \<not> ok then (False, t' # ts)
          else (case validate_all env ts of (ok', ts') \<Rightarrow> (ok', t' # ts')))"

text \<open>
  The checks of \<^verbatim>\<open>isValid\<close> in the order of the source. \<^verbatim>\<open>new Set(txIds).size\<close> is the
  number of distinct ids. The last check compares two transaction objects with
  \<^verbatim>\<open>!==\<close>; it is reached only when all ids of the block differ, so that two entries of
  the block are the same object exactly when they are equal.
\<close>

definition Block_isValid_run :: "prims \<Rightarrow> Block \<Rightarrow> Block option \<Rightarrow> bool \<times> Block" where
  "Block_isValid_run env b previousBlock =
     (if b_hash b \<noteq> Block_calculateHash env b then (False, b)
      else if \<not> meetsDifficulty (b_hash b) (h_difficulty (b_header b)) then (False, b)
      else if (case previousBlock of None \<Rightarrow> False
               | Some p \<Rightarrow> h_previousHash (b_header b) \<noteq> b_hash p) then (False, b)
      else if (case previousBlock of None \<Rightarrow> False
               | Some p \<Rightarrow> h_height (b_header b) \<noteq> h_height (b_header p) + 1) then (False, b)
      else if h_merkleRoot (b_header b) \<noteq> Block_calculateMerkleRoot env b then (False, b)
      else
        (case validate_all env (b_transactions b) of
           (ok, ts') \<Rightarrow>
             (let b' = b\<lparr>b_transactions := ts'\<rparr>;
                  txIds = map tx_id ts';
                  coinbaseTransactions = filter isCoinbase ts'
              in if \<not> ok then (False, b')
                 else if length (remdups txIds) \<noteq> length txIds then (False, b')
                 else if length coinbaseTransactions > 1 then (False, b')
                 else if length coinbaseTransactions = 1 \<and> ts' ! 0 \<noteq> coinbaseTransactions ! 0
                   then (False, b')
                 else (True, b'))))"

definition Block_isValid :: "prims \<Rightarrow> Block \<Rightarrow> Block option \<Rightarrow> bool" where
  "Block_isValid env b previousBlock = fst (Block_isValid_run env b previousBlock)"

definition getBlockReward :: "prims \<Rightarrow> nat \<Rightarrow> real" where
  "getBlockReward env height =
     (let initialReward = 50;
          halvingInterval = 210000;
          halvings = height div halvingInterval
      in round_double env (initialReward / 2 ^ halvings))"

text \<open>
  \<^verbatim>\<open>createGenesisBlock\<close>; \<open>now_tx\<close> and \<open>now_block\<close> are the clock readings of the two
  constructors.
\<close>

definition genesis_address :: string where
  "genesis_address = ''1A1zP1eP5QGefi2DMPTfTL5SLmv7DivfNa''"

definition Block_createGenesisBlock :: "prims \<Rightarrow> int \<Rightarrow> int \<Rightarrow> Block option" where
  "Block_createGenesisBlock env now_tx now_block =
     (let genesisTransaction = createCoinbase env now_tx genesis_address 50 0;
          block = Block_new env now_block [genesisTransaction] zero_hash 0 4;
          block1 = block\<lparr>b_header := (b_header block)\<lparr>h_timestamp := 1231006505\<rparr>\<rparr>
      in Block_mineBlock env block1 None)"

subsection \<open>Serialisation\<close>




section \<open>Blockchain.ts\<close>

text \<open>
  The unspent-output index is a \<^verbatim>\<open>Map\<close> from the string \<^verbatim>\<open>`${txId}:${outputIndex}`\<close> to the
  output. The key is modelled by the pair it is printed from: the index is a number,
  its digits hold no colon, so the last colon of the string separates the two parts
  and different pairs give different strings. The map is an association list in
  insertion order, the order in which \<^verbatim>\<open>Map.values()\<close> iterates; \<open>AList.update\<close> replaces
  the value of a key in place and appends a new key, as \<^verbatim>\<open>Map.set\<close> does. The balances
  are only read and written by key and are a partial function.

  The objects of the source are shared: a transaction of the pool that is selected
  for a block is the same object in both places. The model copies values. The only
  field that any operation assigns after construction of a pooled or chained
  transaction is its fee, inside \<^verbatim>\<open>isValid\<close>, and lemma \<open>isValid_run_idem\<close> shows that a
  second call assigns the value that is already there.
\<close>

record UTXO =
  u_txId :: string
  u_outputIndex :: int
  u_address :: string
  u_amount :: real
  u_blockHeight :: nat

type_synonym utxo_key = "string \<times> int"

record Blockchain =
  bc_chain :: "Block list"
  bc_difficulty :: nat
  bc_miningReward :: real
  bc_memPool :: "Transaction list"
  bc_utxoSet :: "(utxo_key \<times> UTXO) list"
  bc_addressBalances :: "string \<rightharpoonup> real"
  bc_blockTimes :: "int list"

definition targetBlockTime :: int where
  "targetBlockTime = 600000"

definition difficultyAdjustmentInterval :: nat where
  "difficultyAdjustmentInterval = 10"

text \<open>\<^verbatim>\<open>getLatestBlock\<close>: \<^verbatim>\<open>this.chain[this.chain.length - 1]\<close>, \<^verbatim>\<open>undefined\<close> on an empty chain.\<close>

definition getLatestBlock :: "Blockchain \<Rightarrow> Block option" where
  "getLatestBlock s = (if bc_chain s = [] then None else Some (last (bc_chain s)))"

subsection \<open>The unspent-output index\<close>

text \<open>One input of a transaction of an admitted block: the body of the inner loop.\<close>

definition spend_input :: "prims \<Rightarrow> Blockchain \<Rightarrow> TransactionInput \<Rightarrow> Blockchain" where
  "spend_input env s input =
     (if in_txId input \<noteq> [] \<and> in_outputIndex input \<ge> 0 then
        (let utxoKey = (in_txId input, in_outputIndex input)
         in case map_of (bc_utxoSet s) utxoKey of
              None \<Rightarrow> s
            | Some utxo \<Rightarrow>
                (let currentBalance =
                       (case bc_addressBalances s (u_address utxo) of None \<Rightarrow> 0 | Some v \<Rightarrow> v)
                 in s\<lparr>bc_utxoSet := AList.delete utxoKey (bc_utxoSet s),
                      bc_addressBalances := (bc_addressBalances s)
                        (u_address utxo \<mapsto>
                           round_double env (currentBalance - u_amount utxo))\<rparr>))
      else s)"

text \<open>One output, with its position in \<^verbatim>\<open>transaction.outputs\<close>: the body of \<^verbatim>\<open>forEach\<close>.\<close>

definition add_output ::
  "prims \<Rightarrow> string \<Rightarrow> nat \<Rightarrow> Blockchain \<Rightarrow> (TransactionOutput \<times> nat) \<Rightarrow> Blockchain" where
  "add_output env txid height s oi =
     (case oi of (output, index) \<Rightarrow>
        (let utxo = \<lparr>u_txId = txid, u_outputIndex = int index, u_address = out_address output,
                     u_amount = out_amount output, u_blockHeight = height\<rparr>;
             utxoKey = (txid, int index);
             s1 = s\<lparr>bc_utxoSet := AList.update utxoKey utxo (bc_utxoSet s)\<rparr>;
             currentBalance =
               (case bc_addressBalances s1 (out_address output) of None \<Rightarrow> 0 | Some v \<Rightarrow> v)
         in s1\<lparr>bc_addressBalances := (bc_addressBalances s1)
                  (out_address output \<mapsto>
                     round_double env (currentBalance + out_amount output))\<rparr>))"

definition apply_transaction :: "prims \<Rightarrow> nat \<Rightarrow> Blockchain \<Rightarrow> Transaction \<Rightarrow> Blockchain" where
  "apply_transaction env height s t =
     (let s1 = foldl (spend_input env) s (tx_inputs t)
      in foldl (add_output env (tx_id t) height) s1
           (zip (tx_outputs t) [0 ..< length (tx_outputs t)]))"

definition updateUTXOSet :: "prims \<Rightarrow> Blockchain \<Rightarrow> Block \<Rightarrow> Blockchain" where
  "updateUTXOSet env s block =
     foldl (apply_transaction env (h_height (b_header block))) s (b_transactions block)"

definition getUTXOsForAddress :: "Blockchain \<Rightarrow> string \<Rightarrow> UTXO list" where
  "getUTXOsForAddress s address =
     filter (\<lambda>utxo. u_address utxo = address) (map snd (bc_utxoSet s))"

definition getAddressBalance :: "Blockchain \<Rightarrow> string \<Rightarrow> real" where
  "getAddressBalance s address =
     (case bc_addressBalances s address of None \<Rightarrow> 0 | Some v \<Rightarrow> v)"

subsection \<open>The pool\<close>

definition isTransactionInBlockchain :: "Blockchain \<Rightarrow> string \<Rightarrow> bool" where
  "isTransactionInBlockchain s txId =
     list_ex (\<lambda>block. list_ex (\<lambda>tx. tx_id tx = txId) (b_transactions block)) (bc_chain s)"

text \<open>The loop of \<^verbatim>\<open>addTransaction\<close> over the inputs.\<close>

fun utxos_exist :: "Blockchain \<Rightarrow> TransactionInput list \<Rightarrow> bool" where
  "utxos_exist s [] = True"
| "utxos_exist s (input # rest) =
     (if in_txId input = [] \<or> in_outputIndex input < 0 then utxos_exist s rest
      else if map_of (bc_utxoSet s) (in_txId input, in_outputIndex input) = None then False
      else utxos_exist s rest)"

text \<open>
  \<^verbatim>\<open>addTransaction\<close>. The transaction pushed to the pool is the caller's object after
  \<^verbatim>\<open>isValid\<close> has run on it.
\<close>

definition addTransaction :: "prims \<Rightarrow> Blockchain \<Rightarrow> Transaction \<Rightarrow> bool \<times> Blockchain" where
  "addTransaction env s transaction =
     (case isValid_run env transaction of
        (ok, t') \<Rightarrow>
          if \<not> ok then (False, s)
          else if list_ex (\<lambda>tx. tx_id tx = tx_id t') (bc_memPool s) then (False, s)
          else if isTransactionInBlockchain s (tx_id t') then (False, s)
          else if \<not> utxos_exist s (tx_inputs t') then (False, s)
          else (True, s\<lparr>bc_memPool := bc_memPool s @ [t']\<rparr>))"

definition removeTransactionsFromMemPool :: "Blockchain \<Rightarrow> Transaction list \<Rightarrow> Blockchain" where
  "removeTransactionsFromMemPool s transactions =
     (let txIds = set (map tx_id transactions)
      in s\<lparr>bc_memPool := filter (\<lambda>tx. tx_id tx \<notin> txIds) (bc_memPool s)\<rparr>)"

text \<open>
  \<^verbatim>\<open>selectTransactionsForMining\<close>. The filter calls \<^verbatim>\<open>isValid\<close> on every pooled
  transaction, which leaves the pool as \<open>map (snd \<circ> isValid_run env)\<close> of itself. The
  sort of the engine is stable; with the comparator \<^verbatim>\<open>feeRateB - feeRateA\<close> it orders by
  falling fee rate, and \<open>sort_key\<close> is the stable insertion sort on the negated rate.
  (The difference of two doubles rounds to a number of the same sign, so that the
  comparator orders the rounded rates as they are ordered.) The size is the length of
  a serialised object and is positive for \<^verbatim>\<open>JSON.stringify\<close>.
\<close>

definition feeRate :: "prims \<Rightarrow> Transaction \<Rightarrow> real" where
  "feeRate env t = round_double env (tx_fee t / real (getSize env t))"

definition selectTransactionsForMining ::
  "prims \<Rightarrow> nat \<Rightarrow> Blockchain \<Rightarrow> Transaction list \<times> Blockchain" where
  "selectTransactionsForMining env maxTransactions s =
     (let checked = map (isValid_run env) (bc_memPool s);
          s' = s\<lparr>bc_memPool := map snd checked\<rparr>;
          sortedTransactions = sort_key (\<lambda>t. - feeRate env t) (map snd (filter fst checked))
      in (take maxTransactions sortedTransactions, s'))"

subsection \<open>Block admission\<close>

definition updateBlockTimes :: "Blockchain \<Rightarrow> Block \<Rightarrow> Blockchain" where
  "updateBlockTimes s block =
     (if length (bc_chain s) > 1 then
        (let previousBlock = bc_chain s ! (length (bc_chain s) - 2);
             timeDiff = h_timestamp (b_header block) - h_timestamp (b_header previousBlock);
             times = bc_blockTimes s @ [timeDiff]
         in s\<lparr>bc_blockTimes :=
                (if length times > difficultyAdjustmentInterval then tl times else times)\<rparr>)
      else s)"

text \<open>
  \<^verbatim>\<open>addBlock\<close>. \<open>saved\<close> is what \<^verbatim>\<open>this.storage.saveBlock(block)\<close> returns in this call; the
  storage is the SQLite collaborator. On an empty chain \<^verbatim>\<open>getLatestBlock()\<close> is
  \<^verbatim>\<open>undefined\<close>: \<^verbatim>\<open>isValid(undefined)\<close> skips the two checks against the parent, and the
  height check that follows throws a TypeError. The block that is pushed is the
  argument as \<^verbatim>\<open>isValid\<close> has left it.
\<close>

definition addBlock :: "prims \<Rightarrow> bool \<Rightarrow> Blockchain \<Rightarrow> Block \<Rightarrow> error + (bool \<times> Blockchain)" where
  "addBlock env saved s block =
     (let previousBlock = getLatestBlock s
      in case Block_isValid_run env block previousBlock of
           (ok, block') \<Rightarrow>
             if \<not> ok then Inr (False, s)
             else
               (case previousBlock of
                  None \<Rightarrow> Inl TypeError
                | Some p \<Rightarrow>
                    if h_height (b_header block') \<noteq> h_height (b_header p) + 1
                    then Inr (False, s)
                    else
                      (let s1 = s\<lparr>bc_chain := bc_chain s @ [block']\<rparr>
                       in if \<not> saved then Inr (False, s1\<lparr>bc_chain := butlast (bc_chain s1)\<rparr>)
                          else
                            (let s2 = updateUTXOSet env s1 block';
                                 s3 = removeTransactionsFromMemPool s2 (b_transactions block');
                                 s4 = updateBlockTimes s3 block'
                             in Inr (True, s4)))))"

subsection \<open>Mining\<close>

text \<open>
  \<^verbatim>\<open>adjustDifficulty\<close>. With no recorded block time the average is \<^verbatim>\<open>0 / 0\<close>, a NaN, for
  which both comparisons of \<^verbatim>\<open>Hash.adjustDifficulty\<close> are false: the difficulty stays.
\<close>

definition adjustDifficulty :: "prims \<Rightarrow> Blockchain \<Rightarrow> Blockchain" where
  "adjustDifficulty env s =
     (if length (bc_chain s) mod difficultyAdjustmentInterval = 0 \<and> length (bc_chain s) > 0 then
        (if bc_blockTimes s = [] then s
         else
           (let averageTime =
                  round_double env
                    (real_of_int (foldl (\<lambda>sum time. sum + time) 0 (bc_blockTimes s))
                       / real (length (bc_blockTimes s)))
            in s\<lparr>bc_difficulty :=
                   adjustDifficulty_hash env (bc_difficulty s) (real_of_int targetBlockTime)
                     averageTime\<rparr>))
      else s)"

text \<open>
  \<^verbatim>\<open>mineBlock\<close>; \<open>now_tx\<close> and \<open>now_block\<close> are the clock readings of the two constructors,
  \<open>saved\<close> the answer of the storage. The outer \<open>option\<close> is \<open>None\<close> when the search for
  a nonce does not return; the result \<open>None\<close> inside is the \<^verbatim>\<open>null\<close> of the source. The
  block that is returned is the object that \<^verbatim>\<open>addBlock\<close> has pushed, the last of the
  chain.
\<close>

definition mineBlock ::
  "prims \<Rightarrow> int \<Rightarrow> int \<Rightarrow> bool \<Rightarrow> Blockchain \<Rightarrow> string
     \<Rightarrow> (error + (Block option \<times> Blockchain)) option" where
  "mineBlock env now_tx now_block saved s minerAddress =
     (let s1 = adjustDifficulty env s
      in case selectTransactionsForMining env 100 s1 of
           (selectedTransactions, s2) \<Rightarrow>
             (let blockReward = getBlockReward env (length (bc_chain s2));
                  totalFees =
                    foldl (\<lambda>sum tx. round_double env (sum + tx_fee tx)) 0 selectedTransactions;
                  coinbaseTransaction =
                    createCoinbase env now_tx minerAddress
                      (round_double env (blockReward + totalFees)) (length (bc_chain s2));
                  transactions = coinbaseTransaction # selectedTransactions
              in case getLatestBlock s2 of
                   None \<Rightarrow> Some (Inl TypeError)
                 | Some previousBlock \<Rightarrow>
                     (let newBlock = Block_new env now_block transactions (b_hash previousBlock)
                                       (h_height (b_header previousBlock) + 1) (bc_difficulty s2)
                      in case Block_mineBlock env newBlock (Some (bc_difficulty s2)) of
                           None \<Rightarrow> None
                         | Some mined \<Rightarrow>
                             (case addBlock env saved s2 mined of
                                Inl e \<Rightarrow> Some (Inl e)
                              | Inr (True, s3) \<Rightarrow> Some (Inr (Some (last (bc_chain s3)), s3))
                              | Inr (False, s3) \<Rightarrow> Some (Inr (None, s3))))))"

text \<open>
  \<^verbatim>\<open>isChainValid\<close>. Each call of \<^verbatim>\<open>isValid\<close> may assign fees in the block it checks; the
  loop returns at the first invalid block. \<open>check_from\<close> is the loop from index \<open>i\<close>,
  the chain passed along as the calls leave it.
\<close>

function check_from :: "prims \<Rightarrow> nat \<Rightarrow> Block list \<Rightarrow> bool \<times> Block list" where
  "check_from env i chain =
     (if i < length chain then
        (case Block_isValid_run env (chain ! i) (Some (chain ! (i - 1))) of
           (ok, block') \<Rightarrow>
             if \<not> ok then (False, chain[i := block'])
             else check_from env (i + 1) (chain[i := block']))
      else (True, chain))"
  by pat_completeness auto
termination
  by (relation "measure (\<lambda>(env, i, chain). length chain - i)") auto

declare check_from.simps [simp del]

definition isChainValid_run :: "prims \<Rightarrow> Blockchain \<Rightarrow> bool \<times> Blockchain" where
  "isChainValid_run env s =
     (case check_from env 1 (bc_chain s) of (ok, chain') \<Rightarrow> (ok, s\<lparr>bc_chain := chain'\<rparr>))"

definition isChainValid :: "prims \<Rightarrow> Blockchain \<Rightarrow> bool" where
  "isChainValid env s = fst (isChainValid_run env s)"

subsection \<open>A new ledger\<close>

text \<open>
  The constructor on an empty store: \<^verbatim>\<open>loadAllBlocks()\<close> returns no block and
  \<^verbatim>\<open>createGenesisBlock\<close> runs. The answer of \<^verbatim>\<open>saveBlock\<close> for the genesis block is not
  read by the source.
\<close>

definition Blockchain_empty :: Blockchain where
  "Blockchain_empty =
     \<lparr>bc_chain = [], bc_difficulty = 4, bc_miningReward = 50, bc_memPool = [],
      bc_utxoSet = [], bc_addressBalances = Map.empty, bc_blockTimes = []\<rparr>"

definition Blockchain_new :: "prims \<Rightarrow> int \<Rightarrow> int \<Rightarrow> Blockchain option" where
  "Blockchain_new env now_tx now_block =
     (case Block_createGenesisBlock env now_tx now_block of
        None \<Rightarrow> None
      | Some genesisBlock \<Rightarrow>
          (let s1 = Blockchain_empty\<lparr>bc_chain := [genesisBlock]\<rparr>;
               s2 = updateUTXOSet env s1 genesisBlock
           in Some (s2\<lparr>bc_blockTimes := bc_blockTimes s2 @ [targetBlockTime]\<rparr>)))"

section \<open>The Merkle root\<close>

lemma spec_level_Nil: "spec_level H [] = []"
  by (simp add: spec_level_def spec_pad_def)

lemma spec_level_single: "spec_level H [a] = [H (a @ a)]"
  by (simp add: spec_level_def spec_pad_def)

lemma spec_level_Cons2: "spec_level H (a # b # rest) = H (a @ b) # spec_level H rest"
  by (cases "rest = []") (simp_all add: spec_level_def spec_pad_def)

text \<open>The indexed loop of the source computes one level of the specification's tree.\<close>

lemma merkle_for_spec_level:
  "merkle_for env level i acc = acc @ spec_level (sha256 env) (drop i level)"
proof (induction env level i acc rule: merkle_for.induct)
  case (1 env level i nextLevel)
  show ?case
  proof (cases "i < length level")
    case False
    then show ?thesis
      by (simp add: merkle_for.simps [of env level i nextLevel] spec_level_Nil)
  next
    case True
    note lt = this
    show ?thesis
    proof (cases "i + 1 < length level")
      case True
      then have "drop i level = level ! i # level ! (i + 1) # drop (i + 2) level"
        using lt by (metis Cons_nth_drop_Suc Suc_eq_plus1 add_2_eq_Suc')
      with True lt "1.IH"(1) show ?thesis
        by (simp add: merkle_for.simps [of env level i nextLevel] spec_level_Cons2)
    next
      case False
      with lt have "drop i level = [level ! i]"
        by (metis Cons_nth_drop_Suc Suc_eq_plus1 drop_all not_less)
      with False lt "1.IH"(2) show ?thesis
        by (simp add: merkle_for.simps [of env level i nextLevel] spec_level_single
            spec_level_Nil)
    qed
  qed
qed

lemma merkle_while_spec_reduce: "merkle_while env level = spec_reduce (sha256 env) level"
proof (induction env level rule: merkle_while.induct)
  case (1 env level)
  show ?case
  proof (cases "length level > 1")
    case True
    with "1.IH" show ?thesis
      by (simp add: merkle_while.simps [of env level]
          spec_reduce.simps [of "sha256 env" level] merkle_for_spec_level)
  next
    case False
    then show ?thesis
      by (simp add: merkle_while.simps [of env level] spec_reduce.simps [of "sha256 env" level])
  qed
qed

lemma length_spec_reduce: "level \<noteq> [] \<Longrightarrow> length (spec_reduce H level) = 1"
proof (induction H level rule: spec_reduce.induct)
  case (1 H level)
  show ?case
  proof (cases "length level \<le> 1")
    case True
    with "1.prems" have "length level = 1" by (cases level) auto
    with True show ?thesis by (simp add: spec_reduce.simps [of H level])
  next
    case False
    then have "spec_level H level \<noteq> []"
      using length_spec_level [of H level] by auto
    with False "1.IH" show ?thesis by (simp add: spec_reduce.simps [of H level])
  qed
qed

text \<open>The array that \<^verbatim>\<open>return level[0]\<close> reads has exactly one element.\<close>

lemma length_merkle_while: "level \<noteq> [] \<Longrightarrow> length (merkle_while env level) = 1"
  by (simp add: merkle_while_spec_reduce length_spec_reduce)

text \<open>
  Claim C4. \<^verbatim>\<open>calculateMerkleRoot\<close> of the empty list is the hash of the empty string,
  of a one-element list the hash of that element, and on every list it equals the
  bottom-up tree of the specification, in which a level of odd length has its last
  node paired with itself.
\<close>

theorem calculateMerkleRoot_refines_spec:
  "calculateMerkleRoot env [] = sha256 env []
   \<and> calculateMerkleRoot env [x] = sha256 env x
   \<and> calculateMerkleRoot env ids = spec_merkleRoot (sha256 env) ids"
proof -
  have "calculateMerkleRoot env ids = spec_merkleRoot (sha256 env) ids"
  proof (cases ids)
    case Nil
    then show ?thesis by (simp add: calculateMerkleRoot_def spec_merkleRoot_def)
  next
    case (Cons a rest)
    show ?thesis
    proof (cases rest)
      case Nil
      with Cons show ?thesis by (simp add: calculateMerkleRoot_def spec_merkleRoot_def)
    next
      case (Cons b rest')
      have "length (spec_reduce (sha256 env) (map (sha256 env) ids)) = 1"
        using \<open>ids = a # rest\<close> by (intro length_spec_reduce) simp
      then obtain r where "spec_reduce (sha256 env) (map (sha256 env) ids) = [r]"
        by (cases "spec_reduce (sha256 env) (map (sha256 env) ids)") auto
      with Cons \<open>ids = a # rest\<close> show ?thesis
        by (simp add: calculateMerkleRoot_def spec_merkleRoot_def merkle_while_spec_reduce)
    qed
  qed
  then show ?thesis by (simp add: calculateMerkleRoot_def)
qed

text \<open>The tree of three and of five ids, written out.\<close>

lemma spec_reduce_single: "spec_reduce H [a] = [a]"
  by (simp add: spec_reduce.simps [of H "[a]"])

lemma spec_reduce_step: "spec_reduce H (a # b # rest) = spec_reduce H (spec_level H (a # b # rest))"
  by (simp add: spec_reduce.simps [of H "a # b # rest"])

lemma calculateMerkleRoot_three:
  "calculateMerkleRoot env [a, b, c] =
     sha256 env (sha256 env (sha256 env a @ sha256 env b)
                 @ sha256 env (sha256 env c @ sha256 env c))"
  by (simp add: calculateMerkleRoot_def merkle_while_spec_reduce spec_reduce_step
      spec_reduce_single spec_level_Cons2 spec_level_single spec_level_Nil)

lemma calculateMerkleRoot_five:
  "calculateMerkleRoot env [a, b, c, d, e] =
     sha256 env
       (sha256 env (sha256 env (sha256 env a @ sha256 env b)
                    @ sha256 env (sha256 env c @ sha256 env d))
        @ sha256 env (sha256 env (sha256 env e @ sha256 env e)
                      @ sha256 env (sha256 env e @ sha256 env e)))"
  by (simp add: calculateMerkleRoot_def merkle_while_spec_reduce spec_reduce_step
      spec_reduce_single spec_level_Cons2 spec_level_single spec_level_Nil)

section \<open>An instance of the primitives\<close>

text \<open>
  The theorems below hold for all primitives. Where a theorem has hypotheses, it is
  applied once to the small instance defined here, to show that the hypotheses can be
  met. Its ``hash'' turns the header with nonce 2 into four zeros and marks every other
  text with a leading \<open>f\<close>; its serialiser prints the \<^verbatim>\<open>data\<close> property of an object, so
  that transactions with different payloads get different ids; a signature made with
  a key is \<open>s\<close> followed by the key, and the public key of a private key is the key.
  Its rounding leaves every number as it is: the numbers of the instance are small
  integers, and so are the sums, differences and quotients that it computes, so that
  no operation of the instance rounds.
\<close>

definition toy_stringify :: "json \<Rightarrow> string" where
  "toy_stringify v =
     (case property ''nonce'' v of
        Some (JNum n) \<Rightarrow> (if n = 2 then ''go'' else ''no'')
      | _ \<Rightarrow> (case property ''data'' v of Some (JStr d) \<Rightarrow> d | _ \<Rightarrow> ''-''))"

definition toy_sha256 :: "string \<Rightarrow> string" where
  "toy_sha256 s = (if s = ''go'' then ''0000'' else CHR ''f'' # s)"

definition toy :: prims where
  "toy = \<lparr>sha256 = toy_sha256, stringify = toy_stringify, stringify_pretty = toy_stringify,
          parse = (\<lambda>s. None), ec_public = (\<lambda>k. k),
          ec_sign = (\<lambda>h k. ''s'' @ k), ec_verify = (\<lambda>h sig pub. sig = ''s'' @ pub),
          round_double = (\<lambda>x. x)\<rparr>"

lemma toy_round [simp]: "round_double toy x = x"
  by (simp add: toy_def)

section \<open>Transactions\<close>

subsection \<open>Validity\<close>

text \<open>
  ``All signatures verify'', said without the loop of the source: every input carries
  a non-empty signature and public key and the signature verifies over the signing
  payload.
\<close>

definition signatures_verify :: "prims \<Rightarrow> Transaction \<Rightarrow> bool" where
  "signatures_verify env t =
     list_all (\<lambda>input. in_signature input \<noteq> [] \<and> in_publicKey input \<noteq> []
                \<and> Signature_verify env (stringify env (signatureData t input))
                     (in_signature input) (in_publicKey input)) (tx_inputs t)"

text \<open>
  The fee of the specification: the sum of the input amounts minus the sum of the
  output amounts, in exact arithmetic. The fee that the source computes,
  \<open>computed_fee\<close>, is this number where no addition and no subtraction rounds, and
  need not be otherwise.
\<close>

definition fee_of :: "Transaction \<Rightarrow> real" where
  "fee_of t = sum_list (map in_amount (tx_inputs t)) - sum_list (map out_amount (tx_outputs t))"

lemma verify_inputs_all:
  "verify_inputs env t inputs =
     list_all (\<lambda>input. in_signature input \<noteq> [] \<and> in_publicKey input \<noteq> []
                \<and> Signature_verify env (stringify env (signatureData t input))
                     (in_signature input) (in_publicKey input)) inputs"
  by (induction inputs) auto

lemma outputs_positive_all:
  "outputs_positive outputs = list_all (\<lambda>output. \<not> out_amount output \<le> 0) outputs"
  by (induction outputs) auto

lemma foldl_plus_sum_list: "foldl (\<lambda>sum x. sum + f x) acc xs = acc + sum_list (map f xs)"
  for acc :: real
  by (induction xs arbitrary: acc) auto

lemma computed_fee_exact:
  assumes "round_double env = (\<lambda>x. x)"
  shows "computed_fee env t = fee_of t"
  by (simp add: computed_fee_def inputTotal_def outputTotal_def fee_of_def assms
      foldl_plus_sum_list)

lemma computed_fee_toy: "computed_fee toy t = fee_of t"
  by (rule computed_fee_exact) (simp add: toy_def)

text \<open>The transaction that \<^verbatim>\<open>new Transaction()\<close> builds: no input, no output.\<close>

definition empty_tx :: Transaction where
  "empty_tx = Transaction_new toy 0 [] [] None"


lemma isValid_iff:
  "isValid env t =
     (if isCoinbase t then list_all (\<lambda>output. \<not> out_amount output \<le> 0) (tx_outputs t)
      else \<not> (tx_inputs t = [] \<and> tx_outputs t = [])
           \<and> signatures_verify env t
           \<and> list_all (\<lambda>output. \<not> out_amount output \<le> 0) (tx_outputs t)
           \<and> \<not> computed_fee env t < 0)"
  by (auto simp: isValid_def isValid_run_def calculateFee_def
      verifySignatures_def verify_inputs_all outputs_positive_all signatures_verify_def
      isCoinbase_def Let_def)


text \<open>
  The computed fee is not the fee of the specification when a sum rounds, and a
  transaction that spends more than its inputs hold can be valid. With an input of
  \<^verbatim>\<open>1e16\<close> and outputs of \<^verbatim>\<open>1e16\<close> and 1, the outputs add up to \<^verbatim>\<open>1e16 + 1\<close>, which
  is no double and rounds to \<^verbatim>\<open>1e16\<close>: the computed fee is 0 where the exact fee is
  -1. The three hypotheses on the rounding hold for that of doubles.
\<close>

lemma rounding_hides_overspend:
  assumes "\<not> isCoinbase t" and "signatures_verify env t"
    and "map in_amount (tx_inputs t) = [10 ^ 16]"
    and "map out_amount (tx_outputs t) = [10 ^ 16, 1]"
    and "round_double env 0 = 0" and "round_double env (10 ^ 16) = 10 ^ 16"
    and "round_double env (10 ^ 16 + 1) = 10 ^ 16"
  shows "isValid env t \<and> computed_fee env t = 0 \<and> fee_of t = - 1"
proof -
  obtain i where i: "tx_inputs t = [i]" and ia: "in_amount i = 10 ^ 16"
    using assms(3) by auto
  obtain o1 o2 where o: "tx_outputs t = [o1, o2]"
    and oa: "out_amount o1 = 10 ^ 16" "out_amount o2 = 1"
    using assms(4) by auto
  have fee: "computed_fee env t = 0"
    using assms(5,6,7) by (simp add: computed_fee_def inputTotal_def outputTotal_def i ia o oa)
  have "fee_of t = - 1"
    by (simp add: fee_of_def i ia o oa)
  moreover have "isValid env t"
    using assms(1,2) by (simp add: isValid_iff fee o oa)
  ultimately show ?thesis
    using fee by simp
qed

text \<open>
  An instance: the rounding that takes \<^verbatim>\<open>1e16 + 1\<close> to \<^verbatim>\<open>1e16\<close> and leaves every other
  number, which is what the rounding of doubles does to the numbers that occur here.
\<close>

definition toy_rounding :: prims where
  "toy_rounding = toy\<lparr>round_double := (\<lambda>x. if x = 10 ^ 16 + 1 then 10 ^ 16 else x)\<rparr>"

definition overspend :: Transaction where
  "overspend =
     Transaction_new toy_rounding 0
       [\<lparr>in_txId = ''a'', in_outputIndex = 0, in_signature = ''sk'', in_publicKey = ''k'',
         in_amount = 10 ^ 16, in_scriptSig = None\<rparr>]
       [\<lparr>out_address = ''b'', out_amount = 10 ^ 16, out_scriptPubKey = None\<rparr>,
        \<lparr>out_address = ''c'', out_amount = 1, out_scriptPubKey = None\<rparr>]
       None"

lemma overspend_accepted:
  "isValid toy_rounding overspend \<and> computed_fee toy_rounding overspend = 0
   \<and> fee_of overspend = - 1"
proof (rule rounding_hides_overspend)
  show "\<not> isCoinbase overspend"
    by (simp add: overspend_def Transaction_new_def isCoinbase_def)
  show "signatures_verify toy_rounding overspend"
    by (simp add: overspend_def Transaction_new_def signatures_verify_def Signature_verify_def
        toy_rounding_def toy_def)
qed (simp_all add: overspend_def Transaction_new_def toy_rounding_def)

text \<open>The fee that a successful \<^verbatim>\<open>isValid\<close> stores, and what a second call does.\<close>

lemma isValid_run_fee:
  "isValid_run env t = (ok, t') \<Longrightarrow> t' = t \<or> t' = t\<lparr>tx_fee := computed_fee env t\<rparr>"
  by (auto simp: isValid_run_def calculateFee_def Let_def split: if_splits)

lemma isValid_fee_update [simp]: "isValid env (t\<lparr>tx_fee := x\<rparr>) = isValid env t"
  by (simp add: isValid_def isValid_run_def calculateFee_def computed_fee_def inputTotal_def
      outputTotal_def isCoinbase_def verifySignatures_def verify_inputs_all signatureData_def
      Let_def)

lemma isValid_run_idem:
  "isValid_run env (snd (isValid_run env t)) = isValid_run env t"
  by (auto simp: isValid_run_def calculateFee_def computed_fee_def inputTotal_def
      outputTotal_def isCoinbase_def verifySignatures_def verify_inputs_all signatureData_def
      Let_def)

subsection \<open>Signing\<close>

lemma signTransaction_index_high:
  "int (length (tx_inputs t)) \<le> i
   \<Longrightarrow> signTransaction env t k i = Inl (Error ''Input index out of bounds'')"
  by (simp add: signTransaction_def)

lemma signTransaction_key_mismatch:
  "0 \<le> i \<Longrightarrow> i < int (length (tx_inputs t))
   \<Longrightarrow> in_publicKey (tx_inputs t ! nat i) \<noteq> ec_public env k
   \<Longrightarrow> signTransaction env t k i = Inl (Error ''Private key does not match input public key'')"
  by (simp add: signTransaction_def Let_def)

text \<open>
  Claim C7 asks for the index-out-of-range error at every invalid index. At every
  negative index, and for every transaction and key, the source fails with the
  engine's TypeError instead: the range check has no lower bound.
\<close>

theorem signTransaction_negative_index:
  "signTransaction env t privateKey (- int (Suc n)) = Inl TypeError"
  by (simp add: signTransaction_def)

text \<open>The signature that \<^verbatim>\<open>signTransaction\<close> computes for input \<open>i\<close>.\<close>

definition new_signature :: "prims \<Rightarrow> Transaction \<Rightarrow> string \<Rightarrow> nat \<Rightarrow> string" where
  "new_signature env t k i =
     Signature_sign env (stringify env (signatureData t (tx_inputs t ! i))) k"

text \<open>
  Claim C8. With an index that names an input and a key whose public key is the
  input's, \<^verbatim>\<open>signTransaction\<close> returns the transaction with the signature of that one
  input replaced and nothing else changed, and the hash that \<^verbatim>\<open>calculateHash\<close>
  computes is the same before and after.
\<close>

theorem signTransaction_frame:
  assumes "0 \<le> i" and "i < int (length (tx_inputs t))"
    and "in_publicKey (tx_inputs t ! nat i) = ec_public env k"
  shows "signTransaction env t k i =
           Inr (t\<lparr>tx_inputs := (tx_inputs t)
                  [nat i := (tx_inputs t ! nat i)\<lparr>in_signature := new_signature env t k (nat i)\<rparr>]\<rparr>)
         \<and> calculateHash env
             (t\<lparr>tx_inputs := (tx_inputs t)
                  [nat i := (tx_inputs t ! nat i)\<lparr>in_signature := new_signature env t k (nat i)\<rparr>]\<rparr>)
           = calculateHash env t"
proof -
  have "map input_payload
          ((tx_inputs t)[nat i := (tx_inputs t ! nat i)\<lparr>in_signature := sig\<rparr>])
        = map input_payload (tx_inputs t)" for sig
    using assms(1,2) by (simp add: map_update input_payload_def list_update_same_conv)
  then show ?thesis
    using assms
    by (simp add: signTransaction_def Let_def calculateHash_def txData_def new_signature_def)
qed

text \<open>A transaction with one unsigned input that spends output 0 of transaction \<open>a\<close>.\<close>

definition spend_a :: "string \<Rightarrow> Transaction" where
  "spend_a payload =
     Transaction_new toy 1
       [\<lparr>in_txId = ''a'', in_outputIndex = 0, in_signature = [], in_publicKey = ''k'',
         in_amount = 50, in_scriptSig = None\<rparr>]
       [\<lparr>out_address = ''b'', out_amount = 40, out_scriptPubKey = None\<rparr>]
       (Some payload)"

theorem signTransaction_frame_witness:
  "signTransaction toy (spend_a ''x'') ''k'' 0 =
     Inr ((spend_a ''x'')\<lparr>tx_inputs :=
            [\<lparr>in_txId = ''a'', in_outputIndex = 0, in_signature = ''sk'', in_publicKey = ''k'',
              in_amount = 50, in_scriptSig = None\<rparr>]\<rparr>)
   \<and> calculateHash toy
       ((spend_a ''x'')\<lparr>tx_inputs :=
            [\<lparr>in_txId = ''a'', in_outputIndex = 0, in_signature = ''sk'', in_publicKey = ''k'',
              in_amount = 50, in_scriptSig = None\<rparr>]\<rparr>)
     = calculateHash toy (spend_a ''x'')"
  using signTransaction_frame [of 0 "spend_a ''x''" toy "''k''"]
  by (simp add: spend_a_def Transaction_new_def toy_def new_signature_def Signature_sign_def)

section \<open>Serialisation round trips\<close>


lemma as_int_of_int [simp]: "as_int (Some (JNum (of_int n))) = Some n"
  by (simp add: as_int_def)

lemma as_nat_of_nat [simp]: "as_nat (Some (JNum (of_nat n))) = Some n"
proof -
  have "as_int (Some (JNum (of_int (int n)))) = Some (int n)" by (rule as_int_of_int)
  then show ?thesis by (simp add: as_nat_def)
qed











section \<open>Blocks\<close>

text \<open>
  \<^verbatim>\<open>isValid\<close> leaves a transaction as it was or with its fee assigned. \<open>fee_cached t t'\<close>
  says that \<open>t'\<close> is \<open>t\<close> up to the fee.
\<close>

definition fee_cached :: "Transaction \<Rightarrow> Transaction \<Rightarrow> bool" where
  "fee_cached t t' = (t' = t\<lparr>tx_fee := tx_fee t'\<rparr>)"

lemma fee_cached_refl: "fee_cached t t"
  by (simp add: fee_cached_def)

lemma isValid_run_cached: "fee_cached t (snd (isValid_run env t))"
  using isValid_run_fee [of env t "fst (isValid_run env t)" "snd (isValid_run env t)"]
  by (auto simp: fee_cached_def)

lemma validate_all_fst: "fst (validate_all env ts) = list_all (isValid env) ts"
proof (induction ts)
  case Nil
  then show ?case by simp
next
  case (Cons t ts)
  then show ?case
    by (cases "isValid_run env t"; cases "validate_all env ts") (auto simp: isValid_def)
qed

lemma validate_all_cached: "list_all2 fee_cached ts (snd (validate_all env ts))"
proof (induction ts)
  case Nil
  then show ?case by simp
next
  case (Cons t ts)
  have refl: "list_all2 fee_cached ts ts"
    by (simp add: list_all2_same fee_cached_refl)
  have c: "fee_cached t (snd (isValid_run env t))" by (rule isValid_run_cached)
  show ?case
  proof (cases "isValid_run env t")
    case (Pair ok t')
    with c have "fee_cached t t'" by simp
    with Pair Cons refl show ?thesis
      by (cases "validate_all env ts") auto
  qed
qed

lemma fee_cached_id: "list_all2 fee_cached ts ts' \<Longrightarrow> map tx_id ts' = map tx_id ts"
proof (induction rule: list_all2_induct)
  case Nil
  then show ?case by simp
next
  case (Cons t ts t' ts')
  from Cons(1) have "tx_id t' = tx_id (t\<lparr>tx_fee := tx_fee t'\<rparr>)" by (simp add: fee_cached_def)
  with Cons show ?case by simp
qed

lemma fee_cached_coinbase:
  "list_all2 fee_cached ts ts' \<Longrightarrow> map isCoinbase ts' = map isCoinbase ts"
proof (induction rule: list_all2_induct)
  case Nil
  then show ?case by simp
next
  case (Cons t ts t' ts')
  from Cons(1) have "isCoinbase t' = isCoinbase (t\<lparr>tx_fee := tx_fee t'\<rparr>)"
    by (simp add: fee_cached_def)
  with Cons show ?case by (simp add: isCoinbase_def)
qed

lemma fee_cached_isValid:
  "list_all2 fee_cached ts ts' \<Longrightarrow> list_all (isValid env) ts' = list_all (isValid env) ts"
proof (induction rule: list_all2_induct)
  case Nil
  then show ?case by simp
next
  case (Cons t ts t' ts')
  from Cons(1) have "isValid env t' = isValid env (t\<lparr>tx_fee := tx_fee t'\<rparr>)"
    by (simp add: fee_cached_def)
  with Cons show ?case by simp
qed

text \<open>The test of the mining loop and the test of \<^verbatim>\<open>isValid\<close> agree.\<close>

lemma meetsDifficulty_startsWith:
  "meetsDifficulty hash d = startsWith hash (replicate d CHR ''0'')"
proof -
  have "d \<le> length hash" if "take d hash = replicate d CHR ''0''"
    using arg_cong [OF that, of length] by simp
  then show ?thesis
    by (auto simp: meetsDifficulty_def startsWith_def)
qed

text \<open>
  The two checks on the coinbase transactions (at most one; if there is one, it is the
  first entry) say that no entry after the first is a coinbase transaction.
\<close>

lemma coinbase_checks:
  "(\<not> length (filter P xs) > 1 \<and> \<not> (length (filter P xs) = 1 \<and> xs ! 0 \<noteq> filter P xs ! 0))
   = list_all (\<lambda>t. \<not> P t) (tl xs)"
proof (cases xs)
  case Nil
  then show ?thesis by simp
next
  case (Cons x rest)
  show ?thesis
  proof (cases "P x")
    case True
    have "(filter P rest = []) = list_all (\<lambda>t. \<not> P t) rest"
      by (auto simp: filter_empty_conv list_all_iff)
    with True Cons show ?thesis by auto
  next
    case False
    have e: "(filter P rest = []) = list_all (\<lambda>t. \<not> P t) rest"
      by (auto simp: filter_empty_conv list_all_iff)
    have "P (filter P rest ! 0)" if "length (filter P rest) = 1"
      using that nth_mem [of 0 "filter P rest"] by auto
    with False have "length (filter P rest) = 1 \<Longrightarrow> x \<noteq> filter P rest ! 0" by auto
    moreover have "length (filter P rest) \<le> 1 \<Longrightarrow> length (filter P rest) \<noteq> 1 \<Longrightarrow> filter P rest = []"
      by (cases "filter P rest") auto
    ultimately show ?thesis using False Cons e
      by (auto simp: not_less)
  qed
qed



lemma list_all_tl_map:
  assumes "map P ts' = map P ts"
  shows "list_all (\<lambda>t. \<not> P t) (tl ts') = list_all (\<lambda>t. \<not> P t) (tl ts)"
proof -
  from assms have "map P (tl ts') = map P (tl ts)" by (simp add: map_tl)
  then have "list_all (\<lambda>b. \<not> b) (map P (tl ts')) = list_all (\<lambda>b. \<not> b) (map P (tl ts))"
    by simp
  then show ?thesis by (simp add: list_all_iff)
qed

text \<open>
  The checks of \<^verbatim>\<open>Block.isValid\<close> in one formula: the stored hash is the hash of the
  header, it meets the stored difficulty, the block links to the parent when one is
  given, the stored Merkle root is that of the transactions, and the transactions are
  all valid, have different ids and hold no coinbase transaction after the first
  position.
\<close>

definition links_to :: "Block \<Rightarrow> Block option \<Rightarrow> bool" where
  "links_to b previousBlock =
     (case previousBlock of
        None \<Rightarrow> True
      | Some p \<Rightarrow> h_previousHash (b_header b) = b_hash p
                 \<and> h_height (b_header b) = h_height (b_header p) + 1)"

definition transactions_ok :: "prims \<Rightarrow> Transaction list \<Rightarrow> bool" where
  "transactions_ok env ts =
     (list_all (isValid env) ts \<and> distinct (map tx_id ts)
      \<and> list_all (\<lambda>t. \<not> isCoinbase t) (tl ts))"

lemma Block_isValid_run_fst:
  assumes "validate_all env (b_transactions b) = (ok, ts')"
  shows "fst (Block_isValid_run env b previousBlock) =
     (b_hash b = Block_calculateHash env b
      \<and> meetsDifficulty (b_hash b) (h_difficulty (b_header b))
      \<and> links_to b previousBlock
      \<and> h_merkleRoot (b_header b) = Block_calculateMerkleRoot env b
      \<and> ok \<and> length (remdups (map tx_id ts')) = length (map tx_id ts')
      \<and> \<not> length (filter isCoinbase ts') > 1
      \<and> \<not> (length (filter isCoinbase ts') = 1 \<and> ts' ! 0 \<noteq> filter isCoinbase ts' ! 0))"
  by (cases previousBlock)
     (simp_all add: Block_isValid_run_def assms Let_def links_to_def del: length_map)

lemma Block_isValid_iff:
  "Block_isValid env b previousBlock =
     (b_hash b = Block_calculateHash env b
      \<and> meetsDifficulty (b_hash b) (h_difficulty (b_header b))
      \<and> links_to b previousBlock
      \<and> h_merkleRoot (b_header b) = Block_calculateMerkleRoot env b
      \<and> transactions_ok env (b_transactions b))"
proof -
  obtain ok ts' where v: "validate_all env (b_transactions b) = (ok, ts')"
    by (cases "validate_all env (b_transactions b)")
  have ok: "ok = list_all (isValid env) (b_transactions b)"
    using validate_all_fst [of env "b_transactions b"] v by simp
  have c: "list_all2 fee_cached (b_transactions b) ts'"
    using validate_all_cached [of "b_transactions b" env] v by simp
  have ids: "map tx_id ts' = map tx_id (b_transactions b)"
    using c by (rule fee_cached_id)
  have cb: "list_all (\<lambda>t. \<not> isCoinbase t) (tl ts')
            = list_all (\<lambda>t. \<not> isCoinbase t) (tl (b_transactions b))"
    using c by (intro list_all_tl_map fee_cached_coinbase)
  have d: "(length (remdups (map tx_id ts')) = length (map tx_id ts'))
           = distinct (map tx_id (b_transactions b))"
    unfolding ids by (simp only: length_remdups_eq remdups_id_iff_distinct)
  have tail: "(\<not> length (filter isCoinbase ts') > 1
               \<and> \<not> (length (filter isCoinbase ts') = 1 \<and> ts' ! 0 \<noteq> filter isCoinbase ts' ! 0))
              = list_all (\<lambda>t. \<not> isCoinbase t) (tl (b_transactions b))"
    using coinbase_checks [of isCoinbase ts'] cb by simp
  show ?thesis
    unfolding Block_isValid_def Block_isValid_run_fst [OF v] transactions_ok_def
    using d tail ok by blast
qed

subsection \<open>Mining\<close>

text \<open>
  What \<^verbatim>\<open>updateHash\<close> establishes and what the search keeps: the stored hash and Merkle
  root are the computed ones; the transactions and all header fields but the nonce
  and the Merkle root are those of the block that entered.
\<close>

definition hash_consistent :: "prims \<Rightarrow> Block \<Rightarrow> bool" where
  "hash_consistent env b =
     (b_hash b = Block_calculateHash env b
      \<and> h_merkleRoot (b_header b) = Block_calculateMerkleRoot env b)"

definition same_block_data :: "Block \<Rightarrow> Block \<Rightarrow> bool" where
  "same_block_data b b' =
     (b_transactions b' = b_transactions b
      \<and> h_version (b_header b') = h_version (b_header b)
      \<and> h_previousHash (b_header b') = h_previousHash (b_header b)
      \<and> h_timestamp (b_header b') = h_timestamp (b_header b)
      \<and> h_difficulty (b_header b') = h_difficulty (b_header b)
      \<and> h_height (b_header b') = h_height (b_header b))"

lemma updateHash_consistent: "hash_consistent env (updateHash env b)"
  by (simp add: hash_consistent_def updateHash_def Let_def Block_calculateHash_def
      Block_calculateMerkleRoot_def blockData_def)

lemma updateHash_same: "same_block_data b (updateHash env b)"
  by (simp add: same_block_data_def updateHash_def Let_def)

lemma updateSize_consistent: "hash_consistent env (updateSize env b) = hash_consistent env b"
  by (simp add: hash_consistent_def updateSize_def Block_calculateHash_def
      Block_calculateMerkleRoot_def blockData_def)

lemma same_block_data_trans:
  "same_block_data a b \<Longrightarrow> same_block_data b c \<Longrightarrow> same_block_data a c"
  by (simp add: same_block_data_def)

lemma mine_loop_sound:
  assumes "mine_loop env target b = Some b'"
  shows "startsWith (b_hash b') target \<and> same_block_data b b'
         \<and> (hash_consistent env b \<longrightarrow> hash_consistent env b')"
proof (rule mine_loop.raw_induct
    [where P = "\<lambda>env target b b'. startsWith (b_hash b') target \<and> same_block_data b b'
         \<and> (hash_consistent env b \<longrightarrow> hash_consistent env b')", OF _ assms], goal_cases)
  case (1 approx env target b b')
  show ?case
  proof (cases "startsWith (b_hash b) target")
    case True
    with 1(2) show ?thesis by (simp add: same_block_data_def)
  next
    case False
    let ?next = "updateHash env (b\<lparr>b_header := (b_header b)\<lparr>h_nonce := h_nonce (b_header b) + 1\<rparr>\<rparr>)"
    from False 1(2) have "approx env target ?next = Some b'" by simp
    from 1(1) [OF this]
    have ih: "startsWith (b_hash b') target" "same_block_data ?next b'"
      "hash_consistent env ?next \<longrightarrow> hash_consistent env b'" by simp_all
    have "same_block_data b ?next"
      by (simp add: same_block_data_def updateHash_def Let_def)
    with ih show ?thesis
      using updateHash_consistent same_block_data_trans by blast
  qed
qed

lemma Block_mineBlock_sound:
  assumes "Block_mineBlock env b None = Some b'"
  shows "hash_consistent env b' \<and> same_block_data b b'
         \<and> meetsDifficulty (b_hash b') (h_difficulty (b_header b'))"
proof -
  let ?b0 = "updateHash env (b\<lparr>b_header := (b_header b)\<lparr>h_nonce := 0\<rparr>\<rparr>)"
  let ?target = "replicate (h_difficulty (b_header b)) CHR ''0''"
  from assms obtain m where m: "mine_loop env ?target ?b0 = Some m" and b': "b' = updateSize env m"
    by (auto simp: Block_mineBlock_def Let_def)
  from mine_loop_sound [OF m] updateHash_consistent [of env]
  have s: "startsWith (b_hash m) ?target" "same_block_data ?b0 m" "hash_consistent env m"
    by simp_all
  have "same_block_data b ?b0" by (simp add: same_block_data_def updateHash_def Let_def)
  from this s(2) have sb: "same_block_data b m" by (rule same_block_data_trans)
  then have "h_difficulty (b_header m) = h_difficulty (b_header b)"
    by (simp add: same_block_data_def)
  with s(1) have "meetsDifficulty (b_hash m) (h_difficulty (b_header m))"
    by (simp add: meetsDifficulty_startsWith)
  with s(3) sb show ?thesis
    unfolding b' by (simp add: updateSize_consistent) (simp add: updateSize_def same_block_data_def)
qed

lemma mined_block_isValid_aux:
  assumes "Block_mineBlock env b None = Some b'"
    and "h_previousHash (b_header b) = b_hash p"
    and "h_height (b_header b) = h_height (b_header p) + 1"
  shows "Block_isValid env b' (Some p) = transactions_ok env (b_transactions b)"
proof -
  from Block_mineBlock_sound [OF assms(1)]
  have "hash_consistent env b'" "same_block_data b b'"
    "meetsDifficulty (b_hash b') (h_difficulty (b_header b'))" by simp_all
  with assms(2,3) show ?thesis
    by (simp add: Block_isValid_iff hash_consistent_def same_block_data_def links_to_def)
qed

lemma mined_block_checks:
  assumes "Block_mineBlock env b None = Some b'"
    and "h_previousHash (b_header b) = b_hash p"
    and "h_height (b_header b) = h_height (b_header p) + 1"
  shows "b_hash b' = Block_calculateHash env b'
         \<and> meetsDifficulty (b_hash b') (h_difficulty (b_header b'))
         \<and> h_difficulty (b_header b') = h_difficulty (b_header b)
         \<and> h_previousHash (b_header b') = b_hash p
         \<and> h_height (b_header b') = h_height (b_header p) + 1
         \<and> h_merkleRoot (b_header b') = Block_calculateMerkleRoot env b'
         \<and> b_transactions b' = b_transactions b"
proof -
  from Block_mineBlock_sound [OF assms(1)]
  have "hash_consistent env b'" "same_block_data b b'"
    "meetsDifficulty (b_hash b') (h_difficulty (b_header b'))" by simp_all
  with assms(2,3) show ?thesis
    by (simp add: hash_consistent_def same_block_data_def)
qed

text \<open>
  Claim C5, amended. When \<^verbatim>\<open>mineBlock()\<close> returns for a block that names \<open>p\<close> as its
  parent (the parent's hash as previous hash, the parent's height plus one), the
  checks of the hash, of the difficulty, of the linkage and of the Merkle root pass:
  the stored hash is the hash of the header and meets the stored difficulty, which is
  the one the block entered with, the previous hash and the height are those that
  follow \<open>p\<close>, and the stored Merkle root is that of the transactions, which are the ones
  the block entered with. And \<^verbatim>\<open>isValid(p)\<close> is true exactly when the transactions of
  the block pass their checks: each one valid, no id twice, no coinbase transaction
  after the first position.
\<close>

theorem mined_block_isValid:
  assumes "Block_mineBlock env b None = Some b'"
    and "h_previousHash (b_header b) = b_hash p"
    and "h_height (b_header b) = h_height (b_header p) + 1"
  shows "b_hash b' = Block_calculateHash env b'
         \<and> meetsDifficulty (b_hash b') (h_difficulty (b_header b'))
         \<and> h_difficulty (b_header b') = h_difficulty (b_header b)
         \<and> h_previousHash (b_header b') = b_hash p
         \<and> h_height (b_header b') = h_height (b_header p) + 1
         \<and> h_merkleRoot (b_header b') = Block_calculateMerkleRoot env b'
         \<and> b_transactions b' = b_transactions b
         \<and> Block_isValid env b' (Some p) = transactions_ok env (b_transactions b)"
  using mined_block_checks [OF assms] mined_block_isValid_aux [OF assms] by blast

subsection \<open>Mining in the instance\<close>

text \<open>
  In the instance the hash of a header is four zeros at nonce 2 and \<open>fno\<close> at any other
  nonce, so that a search at a difficulty from 1 to 4 ends at nonce 2.
\<close>

lemma toy_block_hash:
  "Block_calculateHash toy b = (if h_nonce (b_header b) = 2 then ''0000'' else ''fno'')"
  by (simp add: Block_calculateHash_def toy_def toy_stringify_def blockData_def property_def
      toy_sha256_def)

definition with_nonce :: "nat \<Rightarrow> Block \<Rightarrow> Block" where
  "with_nonce n b = updateHash toy (b\<lparr>b_header := (b_header b)\<lparr>h_nonce := n\<rparr>\<rparr>)"

lemma with_nonce_step:
  "updateHash toy ((with_nonce n b)\<lparr>b_header := (b_header (with_nonce n b))
      \<lparr>h_nonce := Suc (h_nonce (b_header (with_nonce n b)))\<rparr>\<rparr>) = with_nonce (Suc n) b"
  by (simp add: with_nonce_def updateHash_def Let_def Block_calculateMerkleRoot_def
      Block_calculateHash_def blockData_def)

lemma with_nonce_hash:
  "b_hash (with_nonce n b) = (if n = 2 then ''0000'' else ''fno'')"
  by (simp add: with_nonce_def updateHash_def Let_def toy_block_hash)

lemma toy_mine_loop:
  assumes "0 < d" and "d \<le> 4"
  shows "mine_loop toy (replicate d CHR ''0'') (with_nonce 0 b) = Some (with_nonce 2 b)"
proof -
  have no: "\<not> startsWith ''fno'' (replicate d CHR ''0'')"
    using assms(1) by (cases d) (auto simp: startsWith_def)
  have yes: "startsWith ''0000'' (replicate d CHR ''0'')"
  proof -
    have "replicate 4 CHR ''0'' = ''0000''" by (simp add: numeral_eq_Suc)
    then have "take d ''0000'' = replicate d CHR ''0''"
      using assms(2) by (metis min.absorb1 take_replicate)
    with assms(2) show ?thesis by (simp add: startsWith_def)
  qed
  have "mine_loop toy (replicate d CHR ''0'') (with_nonce 2 b) = Some (with_nonce 2 b)"
    by (subst mine_loop.simps) (simp add: with_nonce_hash yes)
  then have "mine_loop toy (replicate d CHR ''0'') (with_nonce (Suc 0) b) = Some (with_nonce 2 b)"
    by (subst mine_loop.simps) (simp add: with_nonce_hash no with_nonce_step numeral_2_eq_2)
  then show ?thesis
    by (subst mine_loop.simps) (simp add: with_nonce_hash no with_nonce_step)
qed

lemma toy_mineBlock:
  assumes "0 < h_difficulty (b_header b)" and "h_difficulty (b_header b) \<le> 4"
  shows "Block_mineBlock toy b None = Some (updateSize toy (with_nonce 2 b))"
  using toy_mine_loop [OF assms, of b]
  by (simp add: Block_mineBlock_def Let_def with_nonce_def)

text \<open>The genesis block of the instance, with both clocks at 0.\<close>

definition genesis_unmined :: Block where
  "genesis_unmined =
     (Block_new toy 0 [createCoinbase toy 0 genesis_address 50 0] zero_hash 0 4)
       \<lparr>b_header := (b_header (Block_new toy 0 [createCoinbase toy 0 genesis_address 50 0]
                                   zero_hash 0 4))\<lparr>h_timestamp := 1231006505\<rparr>\<rparr>"

definition toy_genesis :: Block where
  "toy_genesis = updateSize toy (with_nonce 2 genesis_unmined)"

lemma toy_createGenesisBlock: "Block_createGenesisBlock toy 0 0 = Some toy_genesis"
proof -
  have "h_difficulty (b_header genesis_unmined) = 4"
    by (simp add: genesis_unmined_def Block_new_def updateSize_def updateHash_def Let_def)
  then have "Block_mineBlock toy genesis_unmined None = Some toy_genesis"
    unfolding toy_genesis_def by (intro toy_mineBlock) simp_all
  then show ?thesis
    by (simp add: Block_createGenesisBlock_def Let_def genesis_unmined_def)
qed

lemma toy_genesis_hash: "b_hash toy_genesis = ''0000''"
  by (simp add: toy_genesis_def updateSize_def with_nonce_hash)

lemma toy_genesis_height: "h_height (b_header toy_genesis) = 0"
  by (simp add: toy_genesis_def updateSize_def with_nonce_def updateHash_def Let_def
      genesis_unmined_def Block_new_def)

text \<open>
  Claim C5, as stated, fails for a block that holds an invalid transaction: mining
  does not look at the transactions. The block below holds the transaction without
  inputs and outputs and names the genesis block as its parent.
\<close>

definition bad_block :: Block where
  "bad_block = Block_new toy 9 [empty_tx] ''0000'' 1 4"

lemma isValid_empty_tx: "\<not> isValid toy empty_tx"
  by (simp add: empty_tx_def Transaction_new_def isValid_def isValid_run_def)

text \<open>Mining returns, the block links to its parent, and \<^verbatim>\<open>isValid\<close> is false.\<close>

theorem mined_block_invalid_counterexample:
  "Block_mineBlock toy bad_block None = Some (updateSize toy (with_nonce 2 bad_block))
   \<and> h_previousHash (b_header bad_block) = b_hash toy_genesis
   \<and> h_height (b_header bad_block) = h_height (b_header toy_genesis) + 1
   \<and> \<not> Block_isValid toy (updateSize toy (with_nonce 2 bad_block)) (Some toy_genesis)"
proof -
  have d: "h_difficulty (b_header bad_block) = 4"
    and p: "h_previousHash (b_header bad_block) = ''0000''"
    and h: "h_height (b_header bad_block) = 1"
    and t: "b_transactions bad_block = [empty_tx]"
    by (simp_all add: bad_block_def Block_new_def updateSize_def updateHash_def Let_def)
  have m: "Block_mineBlock toy bad_block None = Some (updateSize toy (with_nonce 2 bad_block))"
    by (rule toy_mineBlock) (simp_all add: d)
  have "\<not> transactions_ok toy (b_transactions bad_block)"
    by (simp add: t transactions_ok_def isValid_empty_tx)
  with mined_block_isValid_aux [OF m, of toy_genesis] p h
  have "\<not> Block_isValid toy (updateSize toy (with_nonce 2 bad_block)) (Some toy_genesis)"
    by (simp add: toy_genesis_hash toy_genesis_height)
  with m p h show ?thesis by (simp add: toy_genesis_hash toy_genesis_height)
qed

text \<open>A block with one coinbase transaction on top of the genesis block.\<close>

definition good_block :: Block where
  "good_block = Block_new toy 9 [createCoinbase toy 9 ''miner'' 50 1] ''0000'' 1 4"

lemma createCoinbase_valid: "0 < reward \<Longrightarrow> isValid env (createCoinbase env now a reward h)"
  by (simp add: isValid_iff createCoinbase_def Transaction_new_def isCoinbase_def Let_def)

definition good_mined :: Block where
  "good_mined = updateSize toy (with_nonce 2 good_block)"

theorem mined_block_isValid_witness:
  "Block_mineBlock toy good_block None = Some good_mined
   \<and> h_previousHash (b_header good_block) = b_hash toy_genesis
   \<and> h_height (b_header good_block) = h_height (b_header toy_genesis) + 1
   \<and> transactions_ok toy (b_transactions good_block)
   \<and> b_hash good_mined = Block_calculateHash toy good_mined
   \<and> meetsDifficulty (b_hash good_mined) (h_difficulty (b_header good_mined))
   \<and> h_difficulty (b_header good_mined) = h_difficulty (b_header good_block)
   \<and> h_previousHash (b_header good_mined) = b_hash toy_genesis
   \<and> h_height (b_header good_mined) = h_height (b_header toy_genesis) + 1
   \<and> h_merkleRoot (b_header good_mined) = Block_calculateMerkleRoot toy good_mined
   \<and> b_transactions good_mined = b_transactions good_block
   \<and> Block_isValid toy good_mined (Some toy_genesis)"
proof -
  have d: "h_difficulty (b_header good_block) = 4"
    and p: "h_previousHash (b_header good_block) = ''0000''"
    and h: "h_height (b_header good_block) = 1"
    and t: "b_transactions good_block = [createCoinbase toy 9 ''miner'' 50 1]"
    by (simp_all add: good_block_def Block_new_def updateSize_def updateHash_def Let_def)
  have m: "Block_mineBlock toy good_block None = Some good_mined"
    unfolding good_mined_def by (rule toy_mineBlock) (simp_all add: d)
  have ok: "transactions_ok toy (b_transactions good_block)"
    by (simp add: t transactions_ok_def createCoinbase_valid)
  have p': "h_previousHash (b_header good_block) = b_hash toy_genesis"
    by (simp add: p toy_genesis_hash)
  have h': "h_height (b_header good_block) = h_height (b_header toy_genesis) + 1"
    by (simp add: h toy_genesis_height)
  from mined_block_isValid [OF m p' h'] ok m p' h' show ?thesis
    by blast
qed

section \<open>The chain\<close>

subsection \<open>Validity of the whole chain\<close>

text \<open>
  \<^verbatim>\<open>Block.isValid\<close> leaves a block as it was up to the fees of its transactions;
  \<open>block_cached b b'\<close> says so. The result of \<^verbatim>\<open>isValid\<close> does not depend on those fees,
  and of the parent it reads the hash and the height only.
\<close>

definition block_cached :: "Block \<Rightarrow> Block \<Rightarrow> bool" where
  "block_cached b b' =
     (b' = b\<lparr>b_transactions := b_transactions b'\<rparr>
      \<and> list_all2 fee_cached (b_transactions b) (b_transactions b'))"

lemma block_cached_refl: "block_cached b b"
  by (simp add: block_cached_def list_all2_same fee_cached_refl)

lemma Block_isValid_run_cached: "block_cached b (snd (Block_isValid_run env b previousBlock))"
proof -
  obtain ok ts' where v: "validate_all env (b_transactions b) = (ok, ts')"
    by (cases "validate_all env (b_transactions b)")
  have c: "list_all2 fee_cached (b_transactions b) ts'"
    using validate_all_cached [of "b_transactions b" env] v by simp
  then have "block_cached b (b\<lparr>b_transactions := ts'\<rparr>)"
    by (simp add: block_cached_def)
  then show ?thesis
    by (simp add: Block_isValid_run_def v Let_def block_cached_refl)
qed

lemma Block_isValid_parent:
  "b_hash p' = b_hash p \<Longrightarrow> h_height (b_header p') = h_height (b_header p)
   \<Longrightarrow> Block_isValid env b (Some p') = Block_isValid env b (Some p)"
  by (simp add: Block_isValid_iff links_to_def)

lemma Block_isValid_cached:
  assumes "block_cached b b'"
  shows "Block_isValid env b' previousBlock = Block_isValid env b previousBlock"
proof -
  from assms have eq: "b' = b\<lparr>b_transactions := b_transactions b'\<rparr>"
    and c: "list_all2 fee_cached (b_transactions b) (b_transactions b')"
    by (simp_all add: block_cached_def)
  have h: "b_header b' = b_header b" "b_hash b' = b_hash b"
    by (subst eq, simp)+
  have ids: "map tx_id (b_transactions b') = map tx_id (b_transactions b)"
    using c by (rule fee_cached_id)
  have len: "length (b_transactions b') = length (b_transactions b)"
    using c by (simp add: list_all2_lengthD)
  have m: "Block_calculateMerkleRoot env b' = Block_calculateMerkleRoot env b"
    by (simp add: Block_calculateMerkleRoot_def ids len)
  have hh: "Block_calculateHash env b' = Block_calculateHash env b"
    by (simp add: Block_calculateHash_def blockData_def h)
  have t: "transactions_ok env (b_transactions b') = transactions_ok env (b_transactions b)"
    using fee_cached_isValid [OF c, of env] list_all_tl_map [OF fee_cached_coinbase [OF c]]
    by (simp add: transactions_ok_def ids)
  show ?thesis
    by (cases previousBlock) (simp_all add: Block_isValid_iff h m hh t links_to_def)
qed

text \<open>
  The loop of \<^verbatim>\<open>isChainValid\<close> returns true exactly when every block from index 1 on
  is valid with the block before it as parent.
\<close>

definition chain_links :: "prims \<Rightarrow> Block list \<Rightarrow> bool" where
  "chain_links env chain =
     (\<forall>j. 0 < j \<and> j < length chain \<longrightarrow> Block_isValid env (chain ! j) (Some (chain ! (j - 1))))"

lemma block_cached_fields:
  assumes "block_cached b b'"
  shows "b_header b' = b_header b" and "b_hash b' = b_hash b" and "b_size b' = b_size b"
proof -
  from assms have eq: "b' = b\<lparr>b_transactions := b_transactions b'\<rparr>"
    by (simp add: block_cached_def)
  show "b_header b' = b_header b" by (subst eq) simp
  show "b_hash b' = b_hash b" by (subst eq) simp
  show "b_size b' = b_size b" by (subst eq) simp
qed

lemma all_from_step:
  "i < n \<Longrightarrow> (\<forall>j. i \<le> j \<and> j < n \<longrightarrow> P j) = (P i \<and> (\<forall>j. Suc i \<le> j \<and> j < n \<longrightarrow> P j))"
  for i :: nat
proof
  assume "i < n" "\<forall>j. i \<le> j \<and> j < n \<longrightarrow> P j"
  then show "P i \<and> (\<forall>j. Suc i \<le> j \<and> j < n \<longrightarrow> P j)" by auto
next
  assume a: "i < n" "P i \<and> (\<forall>j. Suc i \<le> j \<and> j < n \<longrightarrow> P j)"
  show "\<forall>j. i \<le> j \<and> j < n \<longrightarrow> P j"
  proof (intro allI impI)
    fix j assume j: "i \<le> j \<and> j < n"
    show "P j"
    proof (cases "j = i")
      case True
      with a show ?thesis by simp
    next
      case False
      with j have "Suc i \<le> j" by simp
      with a j show ?thesis by blast
    qed
  qed
qed

lemma check_from_fst:
  "0 < i \<Longrightarrow> fst (check_from env i chain) =
     (\<forall>j. i \<le> j \<and> j < length chain \<longrightarrow> Block_isValid env (chain ! j) (Some (chain ! (j - 1))))"
proof (induction env i chain rule: check_from.induct)
  case (1 env i chain)
  show ?case
  proof (cases "i < length chain")
    case False
    then have "fst (check_from env i chain)" by (simp add: check_from.simps [of env i chain])
    with False show ?thesis by auto
  next
    case True
    obtain ok block' where r: "Block_isValid_run env (chain ! i) (Some (chain ! (i - 1))) = (ok, block')"
      by (cases "Block_isValid_run env (chain ! i) (Some (chain ! (i - 1)))")
    then have ok: "ok = Block_isValid env (chain ! i) (Some (chain ! (i - 1)))"
      by (simp add: Block_isValid_def)
    have c: "block_cached (chain ! i) block'"
      using Block_isValid_run_cached [of "chain ! i" env "Some (chain ! (i - 1))"] r by simp
    note step = all_from_step [OF True,
        of "\<lambda>j. Block_isValid env (chain ! j) (Some (chain ! (j - 1)))"]
    show ?thesis
    proof (cases ok)
      case False
      with True r have "\<not> fst (check_from env i chain)"
        by (simp add: check_from.simps [of env i chain])
      with False ok show ?thesis unfolding step by simp
    next
      case ok_true: True
      let ?chain' = "chain[i := block']"
      have ih: "fst (check_from env (i + 1) ?chain') =
        (\<forall>j. i + 1 \<le> j \<and> j < length ?chain' \<longrightarrow>
             Block_isValid env (?chain' ! j) (Some (?chain' ! (j - 1))))"
        using "1.IH" [OF True r [symmetric] _ ] ok_true by simp
      have same: "Block_isValid env (?chain' ! j) (Some (?chain' ! (j - 1)))
                  = Block_isValid env (chain ! j) (Some (chain ! (j - 1)))"
        if "Suc i \<le> j" "j < length chain" for j
      proof (cases "j - 1 = i")
        case True
        from that have ji: "j \<noteq> i" by simp
        have "?chain' ! (j - 1) = block'" using True \<open>i < length chain\<close> by simp
        moreover have "?chain' ! j = chain ! j" using ji by simp
        moreover have "Block_isValid env (chain ! j) (Some block')
                       = Block_isValid env (chain ! j) (Some (chain ! i))"
          by (rule Block_isValid_parent) (simp_all add: block_cached_fields [OF c])
        ultimately show ?thesis using True by simp
      next
        case False
        with that show ?thesis by simp
      qed
      have "fst (check_from env i chain) = fst (check_from env (i + 1) ?chain')"
        using True r ok_true by (simp add: check_from.simps [of env i chain])
      also have "\<dots> = (\<forall>j. Suc i \<le> j \<and> j < length chain \<longrightarrow>
             Block_isValid env (chain ! j) (Some (chain ! (j - 1))))"
        unfolding ih using same by simp
      finally show ?thesis unfolding step using ok ok_true by simp
    qed
  qed
qed

lemma isChainValid_iff: "isChainValid env s = chain_links env (bc_chain s)"
proof -
  have "isChainValid env s = fst (check_from env 1 (bc_chain s))"
    by (simp add: isChainValid_def isChainValid_run_def split: prod.splits)
  also have "\<dots> = chain_links env (bc_chain s)"
    by (subst check_from_fst) (auto simp: chain_links_def Suc_le_eq)
  finally show ?thesis .
qed

text \<open>No operation but the push in \<^verbatim>\<open>addBlock\<close> touches the chain.\<close>

lemma spend_input_chain [simp]: "bc_chain (spend_input env s input) = bc_chain s"
  by (simp add: spend_input_def Let_def split: option.splits)

lemma add_output_chain [simp]: "bc_chain (add_output env txid h s oi) = bc_chain s"
  by (cases oi) (simp add: add_output_def Let_def)

lemma foldl_chain:
  "(\<And>s x. bc_chain (f s x) = bc_chain s) \<Longrightarrow> bc_chain (foldl f s xs) = bc_chain s"
  by (induction xs arbitrary: s) simp_all

lemma apply_transaction_chain [simp]: "bc_chain (apply_transaction env h s t) = bc_chain s"
  by (simp add: apply_transaction_def Let_def foldl_chain)

lemma updateUTXOSet_chain [simp]: "bc_chain (updateUTXOSet env s b) = bc_chain s"
  by (simp add: updateUTXOSet_def foldl_chain)

lemma removeTransactionsFromMemPool_chain [simp]:
  "bc_chain (removeTransactionsFromMemPool s ts) = bc_chain s"
  by (simp add: removeTransactionsFromMemPool_def Let_def)

lemma updateBlockTimes_chain [simp]: "bc_chain (updateBlockTimes s b) = bc_chain s"
  by (simp add: updateBlockTimes_def Let_def)

lemma adjustDifficulty_chain [simp]: "bc_chain (adjustDifficulty env s) = bc_chain s"
  by (simp add: adjustDifficulty_def Let_def)

lemma selectTransactionsForMining_chain [simp]:
  "bc_chain (snd (selectTransactionsForMining env n s)) = bc_chain s"
  by (simp add: selectTransactionsForMining_def Let_def)

lemma addTransaction_chain: "bc_chain (snd (addTransaction env s t)) = bc_chain s"
  by (simp add: addTransaction_def split: prod.splits)

text \<open>
  \<^verbatim>\<open>addBlock\<close> returns false with the ledger as it was, or true with the block, as
  \<^verbatim>\<open>isValid\<close> left it, appended to a chain on whose tip it is valid.
\<close>

lemma addBlock_false: "addBlock env saved s b = Inr (False, s') \<Longrightarrow> s' = s"
  by (auto simp: addBlock_def Let_def split: prod.splits option.splits if_splits)

lemma addBlock_true:
  assumes "addBlock env saved s b = Inr (True, s')"
  shows "bc_chain s \<noteq> [] \<and> Block_isValid env b (Some (last (bc_chain s)))
         \<and> bc_chain s' = bc_chain s @ [snd (Block_isValid_run env b (Some (last (bc_chain s))))]"
proof -
  obtain ok b' where r: "Block_isValid_run env b (getLatestBlock s) = (ok, b')"
    by (cases "Block_isValid_run env b (getLatestBlock s)")
  from assms r have ok
    by (auto simp: addBlock_def Let_def split: option.splits if_splits)
  from assms r have ne: "bc_chain s \<noteq> []"
    by (auto simp: addBlock_def Let_def getLatestBlock_def split: option.splits if_splits)
  then have g: "getLatestBlock s = Some (last (bc_chain s))" by (simp add: getLatestBlock_def)
  from assms r g \<open>ok\<close> have "bc_chain s' = bc_chain s @ [b']"
    by (auto simp: addBlock_def Let_def split: if_splits)
  with r g \<open>ok\<close> ne show ?thesis by (simp add: Block_isValid_def)
qed

lemma chain_links_append:
  assumes "chain \<noteq> []"
  shows "chain_links env (chain @ [b])
         = (chain_links env chain \<and> Block_isValid env b (Some (last chain)))"
proof -
  have n: "(chain @ [b]) ! length chain = b" by simp
  have l: "(chain @ [b]) ! (length chain - 1) = last chain"
    using assms by (simp add: nth_append last_conv_nth)
  have old: "(chain @ [b]) ! j = chain ! j" "(chain @ [b]) ! (j - 1) = chain ! (j - 1)"
    if "j < length chain" for j
    using that by (simp_all add: nth_append)
  show ?thesis
  proof
    assume a: "chain_links env (chain @ [b])"
    have "chain_links env chain"
      unfolding chain_links_def
    proof (intro allI impI)
      fix j assume j: "0 < j \<and> j < length chain"
      with a [unfolded chain_links_def, rule_format, of j]
      have "Block_isValid env ((chain @ [b]) ! j) (Some ((chain @ [b]) ! (j - 1)))"
        by simp
      with j old [of j] show "Block_isValid env (chain ! j) (Some (chain ! (j - 1)))" by simp
    qed
    moreover from assms have "0 < length chain \<and> length chain < length (chain @ [b])" by simp
    with a [unfolded chain_links_def, rule_format, of "length chain"]
    have "Block_isValid env ((chain @ [b]) ! length chain) (Some ((chain @ [b]) ! (length chain - 1)))"
      by blast
    ultimately show "chain_links env chain \<and> Block_isValid env b (Some (last chain))"
      using l n by simp
  next
    assume a: "chain_links env chain \<and> Block_isValid env b (Some (last chain))"
    show "chain_links env (chain @ [b])"
      unfolding chain_links_def
    proof (intro allI impI)
      fix j assume j: "0 < j \<and> j < length (chain @ [b])"
      show "Block_isValid env ((chain @ [b]) ! j) (Some ((chain @ [b]) ! (j - 1)))"
      proof (cases "j < length chain")
        case True
        with a j have "Block_isValid env (chain ! j) (Some (chain ! (j - 1)))"
          by (simp add: chain_links_def)
        with True old [of j] show ?thesis by simp
      next
        case False
        with j have "j = length chain" by simp
        with a l n show ?thesis by simp
      qed
    qed
  qed
qed

lemma addBlock_links:
  assumes "addBlock env saved s b = Inr (ok, s')" and "chain_links env (bc_chain s)"
  shows "chain_links env (bc_chain s')"
proof (cases ok)
  case False
  with assms(1) have "s' = s" using addBlock_false by simp
  with assms(2) show ?thesis by simp
next
  case True
  with assms(1) have "addBlock env saved s b = Inr (True, s')" by simp
  from addBlock_true [OF this]
  have ne: "bc_chain s \<noteq> []" and v: "Block_isValid env b (Some (last (bc_chain s)))"
    and c: "bc_chain s' = bc_chain s @ [snd (Block_isValid_run env b (Some (last (bc_chain s))))]"
    by simp_all
  have "Block_isValid env (snd (Block_isValid_run env b (Some (last (bc_chain s)))))
          (Some (last (bc_chain s)))"
    using v Block_isValid_cached [OF Block_isValid_run_cached] by simp
  with assms(2) ne show ?thesis by (simp add: c chain_links_append)
qed

lemma mineBlock_links:
  assumes "mineBlock env now_tx now_block saved s miner = Some (Inr (r, s'))"
    and "chain_links env (bc_chain s)"
  shows "chain_links env (bc_chain s')"
proof -
  obtain sel s2 where sel: "selectTransactionsForMining env 100 (adjustDifficulty env s) = (sel, s2)"
    by (cases "selectTransactionsForMining env 100 (adjustDifficulty env s)")
  then have c2: "bc_chain s2 = bc_chain s"
    using selectTransactionsForMining_chain [of env 100 "adjustDifficulty env s"] by simp
  from assms(1) sel obtain mined ok where "addBlock env saved s2 mined = Inr (ok, s')"
    by (auto simp: mineBlock_def Let_def split: option.splits sum.splits prod.splits bool.splits)
  from addBlock_links [OF this] assms(2) c2 show ?thesis by simp
qed

text \<open>
  The ledgers that a new ledger can become: by submitting transactions, by admitting
  blocks from outside and by mining, with any clock readings and any answers of the
  storage. A step is a call that returns; the ledger after it is the one the call
  leaves, whatever it returned.
\<close>

inductive reachable :: "prims \<Rightarrow> Blockchain \<Rightarrow> bool" for env :: prims where
  init: "Blockchain_new env now_tx now_block = Some s \<Longrightarrow> reachable env s"
| submit: "reachable env s \<Longrightarrow> addTransaction env s t = (ok, s') \<Longrightarrow> reachable env s'"
| admit: "reachable env s \<Longrightarrow> addBlock env saved s b = Inr (ok, s') \<Longrightarrow> reachable env s'"
| mine: "reachable env s \<Longrightarrow> mineBlock env now_tx now_block saved s miner = Some (Inr (r, s'))
         \<Longrightarrow> reachable env s'"

lemma Blockchain_new_chain:
  "Blockchain_new env a b = Some s \<Longrightarrow> length (bc_chain s) = 1"
  by (auto simp: Blockchain_new_def Let_def Blockchain_empty_def split: option.splits)

lemma reachable_links: "reachable env s \<Longrightarrow> chain_links env (bc_chain s)"
proof (induction rule: reachable.induct)
  case (init now_tx now_block s)
  then have "length (bc_chain s) = 1" by (rule Blockchain_new_chain)
  then show ?case by (simp add: chain_links_def)
next
  case (submit s t ok s')
  then show ?case using addTransaction_chain [of env s t] by simp
next
  case (admit s saved b ok s')
  then show ?case using addBlock_links by blast
next
  case (mine s now_tx now_block saved miner r s')
  then show ?case using mineBlock_links by blast
qed

text \<open>
  A changed stored hash in a valid chain of at least two blocks: a block after the
  genesis block no longer matches its own header; the genesis block no longer matches
  the previous hash of block 1.
\<close>

lemma tamper_detected:
  assumes "chain_links env chain" and "2 \<le> length chain" and "i < length chain"
    and "h \<noteq> b_hash (chain ! i)"
  shows "\<not> chain_links env (chain[i := (chain ! i)\<lparr>b_hash := h\<rparr>])"
proof (cases "i = 0")
  case True
  let ?c = "chain[i := (chain ! i)\<lparr>b_hash := h\<rparr>]"
  from assms(2) have "0 < (1::nat) \<and> 1 < length chain" by simp
  with assms(1) [unfolded chain_links_def, rule_format, of 1]
  have "Block_isValid env (chain ! 1) (Some (chain ! 0))" by simp
  then have "h_previousHash (b_header (chain ! 1)) = b_hash (chain ! 0)"
    by (simp add: Block_isValid_iff links_to_def)
  with assms(4) True have "h_previousHash (b_header (chain ! 1)) \<noteq> h" by simp
  moreover have "?c ! 1 = chain ! 1" "b_hash (?c ! 0) = h"
    using True assms(2,3) by simp_all
  ultimately have "\<not> Block_isValid env (?c ! 1) (Some (?c ! (1 - 1)))"
    by (simp add: Block_isValid_iff links_to_def)
  moreover have "0 < (1::nat) \<and> 1 < length ?c" using assms(2) by simp
  ultimately show ?thesis unfolding chain_links_def by blast
next
  case False
  let ?c = "chain[i := (chain ! i)\<lparr>b_hash := h\<rparr>]"
  from assms(3) False have "0 < i \<and> i < length chain" by simp
  with assms(1) [unfolded chain_links_def, rule_format, of i]
  have "Block_isValid env (chain ! i) (Some (chain ! (i - 1)))" by simp
  then have "b_hash (chain ! i) = Block_calculateHash env (chain ! i)"
    by (simp add: Block_isValid_iff)
  with assms(4) have "h \<noteq> Block_calculateHash env ((chain ! i)\<lparr>b_hash := h\<rparr>)"
    by (simp add: Block_calculateHash_def blockData_def)
  moreover have "?c ! i = (chain ! i)\<lparr>b_hash := h\<rparr>" using assms(3) by simp
  ultimately have "\<not> Block_isValid env (?c ! i) (Some (?c ! (i - 1)))"
    by (simp add: Block_isValid_iff)
  moreover have "0 < i \<and> i < length ?c" using False assms(3) by simp
  ultimately show ?thesis unfolding chain_links_def by blast
qed

subsection \<open>Two ledgers of the instance\<close>

text \<open>
  The new ledger of the instance, and the ledger after one block has been mined for
  the address \<open>miner\<close> with both clocks at 9.
\<close>

lemma toy_coinbase_id:
  "tx_id (createCoinbase toy now a r h) = CHR ''f'' # ''Coinbase for block '' @ decimal h"
  by (simp add: createCoinbase_def Transaction_new_def Let_def calculateHash_def txData_def
      toy_def toy_stringify_def toy_sha256_def property_def)

lemma decimal_digit: "n < 10 \<Longrightarrow> decimal n = [digit n]"
  by (simp add: decimal.simps [of n])

lemma coinbase_fields:
  "tx_inputs (createCoinbase env now a r h) =
     [\<lparr>in_txId = zero_hash, in_outputIndex = -1, in_signature = [], in_publicKey = [],
       in_amount = r, in_scriptSig = None\<rparr>]"
  "tx_outputs (createCoinbase env now a r h) =
     [\<lparr>out_address = a, out_amount = r, out_scriptPubKey = None\<rparr>]"
  "tx_fee (createCoinbase env now a r h) = 0"
  by (simp_all add: createCoinbase_def Transaction_new_def Let_def)

definition genesis_tx :: Transaction where
  "genesis_tx = createCoinbase toy 0 genesis_address 50 0"

lemma toy_genesis_transactions: "b_transactions toy_genesis = [genesis_tx]"
  by (simp add: toy_genesis_def updateSize_def with_nonce_def updateHash_def Let_def
      genesis_unmined_def Block_new_def genesis_tx_def)

definition toy_ledger :: Blockchain where
  "toy_ledger =
     \<lparr>bc_chain = [toy_genesis], bc_difficulty = 4, bc_miningReward = 50, bc_memPool = [],
      bc_utxoSet = [((tx_id genesis_tx, 0),
                     \<lparr>u_txId = tx_id genesis_tx, u_outputIndex = 0, u_address = genesis_address,
                      u_amount = 50, u_blockHeight = 0\<rparr>)],
      bc_addressBalances = [genesis_address \<mapsto> 50],
      bc_blockTimes = [600000]\<rparr>"

lemma toy_Blockchain_new: "Blockchain_new toy 0 0 = Some toy_ledger"
  by (simp add: Blockchain_new_def toy_createGenesisBlock Let_def Blockchain_empty_def
      updateUTXOSet_def toy_genesis_transactions toy_genesis_height apply_transaction_def
      genesis_tx_def coinbase_fields spend_input_def add_output_def toy_ledger_def
      targetBlockTime_def zero_hash_def)

lemma validate_all_stable:
  "list_all (\<lambda>t. snd (isValid_run env t) = t) ts \<Longrightarrow> snd (validate_all env ts) = ts"
proof (induction ts)
  case Nil
  then show ?case by simp
next
  case (Cons t ts)
  then show ?case
    by (cases "isValid_run env t"; cases "validate_all env ts") auto
qed

lemma Block_isValid_run_stable:
  assumes "list_all (\<lambda>t. snd (isValid_run env t) = t) (b_transactions b)"
  shows "snd (Block_isValid_run env b previousBlock) = b"
proof -
  obtain ok ts' where v: "validate_all env (b_transactions b) = (ok, ts')"
    by (cases "validate_all env (b_transactions b)")
  with validate_all_stable [OF assms] have "ts' = b_transactions b" by simp
  with v show ?thesis by (simp add: Block_isValid_run_def Let_def)
qed

lemma Block_isValid_run_eq:
  assumes "list_all (\<lambda>t. snd (isValid_run env t) = t) (b_transactions b)"
  shows "Block_isValid_run env b previousBlock = (Block_isValid env b previousBlock, b)"
  using Block_isValid_run_stable [OF assms, of previousBlock]
  by (simp add: Block_isValid_def prod_eq_iff)

lemma coinbase_stable: "snd (isValid_run env (createCoinbase env' now a r h)) = createCoinbase env' now a r h"
  by (simp add: isValid_run_def isCoinbase_def coinbase_fields)

lemma Block_mineBlock_Some:
  "Block_mineBlock env b (Some (h_difficulty (b_header b))) = Block_mineBlock env b None"
  by (simp add: Block_mineBlock_def)

lemma with_nonce_fields:
  "b_transactions (updateSize toy (with_nonce n b)) = b_transactions b"
  "h_height (b_header (updateSize toy (with_nonce n b))) = h_height (b_header b)"
  "h_timestamp (b_header (updateSize toy (with_nonce n b))) = h_timestamp (b_header b)"
  "b_hash (updateSize toy (with_nonce n b)) = (if n = 2 then ''0000'' else ''fno'')"
  by (simp_all add: updateSize_def with_nonce_def updateHash_def Let_def toy_block_hash)

lemma Block_new_fields:
  "b_transactions (Block_new env now ts p h d) = ts"
  "h_height (b_header (Block_new env now ts p h d)) = h"
  "h_timestamp (b_header (Block_new env now ts p h d)) = now"
  "h_difficulty (b_header (Block_new env now ts p h d)) = d"
  "h_previousHash (b_header (Block_new env now ts p h d)) = p"
  by (simp_all add: Block_new_def updateSize_def updateHash_def Let_def)

definition toy_block1 :: Block where
  "toy_block1 = updateSize toy (with_nonce 2 good_block)"

definition toy_ledger1 :: Blockchain where
  "toy_ledger1 =
     \<lparr>bc_chain = [toy_genesis, toy_block1], bc_difficulty = 4, bc_miningReward = 50,
      bc_memPool = [],
      bc_utxoSet = [((''fCoinbase for block 0'', 0),
                     \<lparr>u_txId = ''fCoinbase for block 0'', u_outputIndex = 0,
                      u_address = genesis_address, u_amount = 50, u_blockHeight = 0\<rparr>),
                    ((''fCoinbase for block 1'', 0),
                     \<lparr>u_txId = ''fCoinbase for block 1'', u_outputIndex = 0,
                      u_address = ''miner'', u_amount = 50, u_blockHeight = 1\<rparr>)],
      bc_addressBalances = [genesis_address \<mapsto> 50, ''miner'' \<mapsto> 50],
      bc_blockTimes = [600000, - 1231006496]\<rparr>"

lemma digit_0_1: "digit 0 = CHR ''0''" "digit 1 = CHR ''1''" "digit (Suc 0) = CHR ''1''"
  by code_simp+

lemma genesis_tx_id: "tx_id genesis_tx = ''fCoinbase for block 0''"
  by (simp add: genesis_tx_def toy_coinbase_id decimal_digit digit_0_1)

lemma toy_block1_mined: "Block_mineBlock toy good_block None = Some toy_block1"
  unfolding toy_block1_def by (rule toy_mineBlock) (simp_all add: good_block_def Block_new_fields)

lemma toy_block1_valid: "Block_isValid toy toy_block1 (Some toy_genesis)"
proof -
  have "transactions_ok toy (b_transactions good_block)"
    by (simp add: good_block_def Block_new_fields transactions_ok_def createCoinbase_valid)
  with mined_block_isValid_aux [OF toy_block1_mined, of toy_genesis] show ?thesis
    by (simp add: good_block_def Block_new_fields toy_genesis_hash toy_genesis_height)
qed

lemma toy_addBlock1: "addBlock toy True toy_ledger toy_block1 = Inr (True, toy_ledger1)"
proof -
  have st: "list_all (\<lambda>t. snd (isValid_run toy t) = t) (b_transactions toy_block1)"
    by (simp add: toy_block1_def with_nonce_fields good_block_def Block_new_fields coinbase_stable)
  have g: "getLatestBlock toy_ledger = Some toy_genesis"
    by (simp add: getLatestBlock_def toy_ledger_def)
  have h: "h_height (b_header toy_block1) = 1" "b_transactions toy_block1 = [createCoinbase toy 9 ''miner'' 50 1]"
    "h_timestamp (b_header toy_block1) = 9"
    by (simp_all add: toy_block1_def with_nonce_fields good_block_def Block_new_fields)
  have "addBlock toy True toy_ledger toy_block1 =
          Inr (True, updateBlockTimes
                 (removeTransactionsFromMemPool
                    (updateUTXOSet toy (toy_ledger\<lparr>bc_chain := bc_chain toy_ledger @ [toy_block1]\<rparr>)
                       toy_block1)
                    (b_transactions toy_block1)) toy_block1)"
    by (simp add: addBlock_def g Block_isValid_run_eq [OF st] toy_block1_valid toy_genesis_height
        h(1) Let_def)
  also have "updateBlockTimes
                 (removeTransactionsFromMemPool
                    (updateUTXOSet toy (toy_ledger\<lparr>bc_chain := bc_chain toy_ledger @ [toy_block1]\<rparr>)
                       toy_block1)
                    (b_transactions toy_block1)) toy_block1 = toy_ledger1"
    by (simp add: h Let_def updateUTXOSet_def apply_transaction_def coinbase_fields
        spend_input_def add_output_def toy_coinbase_id decimal_digit digit_0_1 zero_hash_def
        removeTransactionsFromMemPool_def updateBlockTimes_def toy_ledger_def toy_ledger1_def
        genesis_tx_id difficultyAdjustmentInterval_def toy_genesis_def with_nonce_fields
        genesis_unmined_def genesis_address_def)
  finally show ?thesis .
qed

lemma toy_mineBlock1:
  "mineBlock toy 9 9 True toy_ledger ''miner'' = Some (Inr (Some toy_block1, toy_ledger1))"
proof -
  have a: "adjustDifficulty toy toy_ledger = toy_ledger"
    by (simp add: adjustDifficulty_def toy_ledger_def difficultyAdjustmentInterval_def)
  have s: "selectTransactionsForMining toy 100 toy_ledger = ([], toy_ledger)"
    by (simp add: selectTransactionsForMining_def toy_ledger_def)
  have g: "getLatestBlock toy_ledger = Some toy_genesis"
    by (simp add: getLatestBlock_def toy_ledger_def)
  have r: "getBlockReward toy (Suc 0) = 50"
    by (simp add: getBlockReward_def)
  have n: "Block_new toy 9 [createCoinbase toy 9 ''miner'' 50 (Suc 0)] (b_hash toy_genesis)
             (Suc (h_height (b_header toy_genesis))) 4 = good_block"
    by (simp add: good_block_def toy_genesis_hash toy_genesis_height)
  have m: "Block_mineBlock toy good_block (Some 4) = Some toy_block1"
    using Block_mineBlock_Some [of toy good_block] toy_block1_mined
    by (simp add: good_block_def Block_new_fields)
  have l: "length (bc_chain toy_ledger) = 1" "bc_difficulty toy_ledger = 4"
    by (simp_all add: toy_ledger_def)
  have c: "last (bc_chain toy_ledger1) = toy_block1" by (simp add: toy_ledger1_def)
  show ?thesis
    by (simp add: mineBlock_def a s g r l n m toy_addBlock1 c Let_def)
qed

subsection \<open>Rejected blocks\<close>

lemma addBlock_invalid:
  assumes "\<not> Block_isValid env b (getLatestBlock s)"
  shows "addBlock env saved s b = Inr (False, s)"
proof -
  obtain ok b' where r: "Block_isValid_run env b (getLatestBlock s) = (ok, b')"
    by (cases "Block_isValid_run env b (getLatestBlock s)")
  with assms have "\<not> ok" by (simp add: Block_isValid_def)
  with r show ?thesis by (simp add: addBlock_def Let_def)
qed

lemma addBlock_height:
  assumes "getLatestBlock s = Some tip"
    and "h_height (b_header b) \<noteq> h_height (b_header tip) + 1"
  shows "addBlock env saved s b = Inr (False, s)"
proof -
  from assms have "\<not> Block_isValid env b (getLatestBlock s)"
    by (simp add: Block_isValid_iff links_to_def)
  then show ?thesis by (rule addBlock_invalid)
qed

lemma addBlock_not_saved:
  assumes "bc_chain s \<noteq> []"
  shows "addBlock env False s b = Inr (False, s)"
proof -
  from assms have g: "getLatestBlock s = Some (last (bc_chain s))"
    by (simp add: getLatestBlock_def)
  obtain ok b' where r: "Block_isValid_run env b (Some (last (bc_chain s))) = (ok, b')"
    by (cases "Block_isValid_run env b (Some (last (bc_chain s)))")
  show ?thesis
    by (simp add: addBlock_def g r Let_def)
qed

text \<open>
  Claim C2. \<^verbatim>\<open>addBlock\<close> returns false and leaves the ledger as it was (chain, index of
  unspent outputs, balances, pool, block times) when \<^verbatim>\<open>isValid\<close> against the tip fails,
  and when the height is not that of the tip plus one. When the storage does not save
  the block, the block that was pushed is popped again: on a ledger with a chain the
  call returns false and the ledger is as it was, whatever the block. (On an empty
  chain, which no new ledger has, a block that passes \<^verbatim>\<open>isValid(undefined)\<close> makes the
  height check throw; the ledger is untouched then, too.)
\<close>

theorem addBlock_rejection:
  "(\<not> Block_isValid env b1 (getLatestBlock s) \<longrightarrow> addBlock env saved s b1 = Inr (False, s))
   \<and> (getLatestBlock s = Some tip \<and> h_height (b_header b2) \<noteq> h_height (b_header tip) + 1
        \<longrightarrow> addBlock env saved s b2 = Inr (False, s))
   \<and> (bc_chain s \<noteq> [] \<longrightarrow> addBlock env False s b3 = Inr (False, s))"
  using addBlock_invalid addBlock_height addBlock_not_saved by blast

text \<open>
  In the instance: an invalid block, a block of the wrong height, and a valid block
  that would be admitted but is not saved.
\<close>

lemma bad_block_invalid:
  "\<not> Block_isValid toy (updateSize toy (with_nonce 2 bad_block)) (Some toy_genesis)"
  by (simp add: Block_isValid_iff with_nonce_fields bad_block_def Block_new_fields
      transactions_ok_def isValid_empty_tx)

theorem addBlock_rejection_witness:
  "\<not> Block_isValid toy (updateSize toy (with_nonce 2 bad_block)) (getLatestBlock toy_ledger)
   \<and> addBlock toy True toy_ledger (updateSize toy (with_nonce 2 bad_block)) = Inr (False, toy_ledger)
   \<and> getLatestBlock toy_ledger = Some toy_genesis
   \<and> h_height (b_header toy_genesis) \<noteq> h_height (b_header toy_genesis) + 1
   \<and> addBlock toy True toy_ledger toy_genesis = Inr (False, toy_ledger)
   \<and> bc_chain toy_ledger \<noteq> []
   \<and> Block_isValid toy toy_block1 (Some toy_genesis)
   \<and> addBlock toy True toy_ledger toy_block1 = Inr (True, toy_ledger1)
   \<and> addBlock toy False toy_ledger toy_block1 = Inr (False, toy_ledger)"
proof -
  have g: "getLatestBlock toy_ledger = Some toy_genesis"
    by (simp add: getLatestBlock_def toy_ledger_def)
  have ne: "bc_chain toy_ledger \<noteq> []" by (simp add: toy_ledger_def)
  from addBlock_rejection [where env = toy and s = toy_ledger and saved = True
      and ?b1.0 = "updateSize toy (with_nonce 2 bad_block)" and tip = toy_genesis
      and ?b2.0 = toy_genesis and ?b3.0 = toy_block1]
  show ?thesis
    using g ne bad_block_invalid toy_block1_valid toy_addBlock1 by simp
qed

subsection \<open>The chain stays valid; a changed hash is detected\<close>

text \<open>
  Claim C6, amended. \<^verbatim>\<open>isChainValid\<close> is true of a new ledger and of every ledger that
  can be reached from it by \<^verbatim>\<open>addTransaction\<close>, \<^verbatim>\<open>addBlock\<close> and \<^verbatim>\<open>mineBlock\<close>, in
  particular after any sequence of successful \<^verbatim>\<open>mineBlock\<close> calls. If the chain is
  valid and has at least two blocks, changing the stored hash of any one block makes
  \<^verbatim>\<open>isChainValid\<close> false.
\<close>

theorem chain_validity:
  "(Blockchain_new env now_tx now_block = Some s0 \<longrightarrow> isChainValid env s0)
   \<and> (reachable env s \<longrightarrow> isChainValid env s)
   \<and> (isChainValid env s' \<and> 2 \<le> length (bc_chain s') \<and> i < length (bc_chain s')
        \<and> h \<noteq> b_hash (bc_chain s' ! i)
        \<longrightarrow> \<not> isChainValid env
               (s'\<lparr>bc_chain := (bc_chain s')[i := (bc_chain s' ! i)\<lparr>b_hash := h\<rparr>]\<rparr>))"
  using reachable_links [OF reachable.init] reachable_links tamper_detected
  by (simp add: isChainValid_iff)

text \<open>
  Claim C6, as stated, fails on the chain that holds the genesis block only: the loop
  of \<^verbatim>\<open>isChainValid\<close> starts at index 1 and never looks at the genesis block, whose
  stored hash can be changed without notice.
\<close>

theorem tampered_genesis_counterexample:
  "Blockchain_new toy 0 0 = Some toy_ledger
   \<and> isChainValid toy toy_ledger
   \<and> b_hash (bc_chain toy_ledger ! 0) = ''0000''
   \<and> isChainValid toy
       (toy_ledger\<lparr>bc_chain := (bc_chain toy_ledger)[0 := (bc_chain toy_ledger ! 0)\<lparr>b_hash := ''f000''\<rparr>]\<rparr>)"
  by (simp add: toy_Blockchain_new isChainValid_iff chain_links_def toy_ledger_def toy_genesis_hash)

lemma toy_ledger1_reachable: "reachable toy toy_ledger1"
  using reachable.mine [OF reachable.init [OF toy_Blockchain_new] toy_mineBlock1] .

theorem chain_validity_witness:
  "Blockchain_new toy 0 0 = Some toy_ledger \<and> isChainValid toy toy_ledger
   \<and> reachable toy toy_ledger1 \<and> isChainValid toy toy_ledger1
   \<and> 2 \<le> length (bc_chain toy_ledger1) \<and> (0::nat) < length (bc_chain toy_ledger1)
   \<and> ''f000'' \<noteq> b_hash (bc_chain toy_ledger1 ! 0)
   \<and> \<not> isChainValid toy
         (toy_ledger1\<lparr>bc_chain := (bc_chain toy_ledger1)
            [0 := (bc_chain toy_ledger1 ! 0)\<lparr>b_hash := ''f000''\<rparr>]\<rparr>)"
proof -
  have l: "2 \<le> length (bc_chain toy_ledger1)" "(0::nat) < length (bc_chain toy_ledger1)"
    "''f000'' \<noteq> b_hash (bc_chain toy_ledger1 ! 0)"
    by (simp_all add: toy_ledger1_def toy_genesis_hash)
  from chain_validity [where env = toy and now_tx = 0 and now_block = 0 and ?s0.0 = toy_ledger
      and s = toy_ledger1 and s' = toy_ledger1 and i = 0 and h = "''f000''"]
  show ?thesis
    using toy_Blockchain_new toy_ledger1_reachable l by blast
qed

section \<open>The index of unspent outputs\<close>

text \<open>
  A valid block on a ledger with a chain is admitted when the storage saves it. The
  transactions of the blocks below already carry the fee that \<^verbatim>\<open>isValid\<close> would assign,
  so the block enters the chain as it is.
\<close>

lemma addBlock_admits:
  assumes "bc_chain s \<noteq> []" and "Block_isValid env b (Some (last (bc_chain s)))"
    and "list_all (\<lambda>t. snd (isValid_run env t) = t) (b_transactions b)"
  shows "addBlock env True s b =
           Inr (True, updateBlockTimes
                  (removeTransactionsFromMemPool
                     (updateUTXOSet env (s\<lparr>bc_chain := bc_chain s @ [b]\<rparr>) b) (b_transactions b)) b)"
proof -
  from assms(1) have g: "getLatestBlock s = Some (last (bc_chain s))"
    by (simp add: getLatestBlock_def)
  from assms(2) have "h_height (b_header b) = h_height (b_header (last (bc_chain s))) + 1"
    by (simp add: Block_isValid_iff links_to_def)
  then show ?thesis
    by (simp add: addBlock_def g Block_isValid_run_eq [OF assms(3)] assms(2) Let_def)
qed

subsection \<open>Balances and unspent outputs\<close>

text \<open>
  Claim C10 says that the balance of an address is always the sum of its unspent
  outputs. \<^verbatim>\<open>updateUTXOSet\<close> writes every output of an admitted block with \<^verbatim>\<open>Map.set\<close>
  and adds its amount to the balance. When the key is already in the index the entry
  is overwritten, and the balance has the amount twice. \<^verbatim>\<open>addBlock\<close> never asks whether
  a transaction id is already in the chain (as \<^verbatim>\<open>addTransaction\<close> does for the pool).

  The block below is built on a new ledger from the transaction of the genesis block,
  on top of the genesis block, and mined.
\<close>

definition replay_unmined :: Block where
  "replay_unmined = Block_new toy 9 [genesis_tx] ''0000'' 1 4"

definition replay_block :: Block where
  "replay_block = updateSize toy (with_nonce 2 replay_unmined)"

lemma replay_block_mined: "Block_mineBlock toy replay_unmined None = Some replay_block"
  unfolding replay_block_def
  by (rule toy_mineBlock) (simp_all add: replay_unmined_def Block_new_fields)

lemma replay_block_valid: "Block_isValid toy replay_block (Some toy_genesis)"
proof -
  have "transactions_ok toy (b_transactions replay_unmined)"
    by (simp add: replay_unmined_def Block_new_fields transactions_ok_def genesis_tx_def
        createCoinbase_valid)
  with mined_block_isValid_aux [OF replay_block_mined, of toy_genesis] show ?thesis
    by (simp add: replay_unmined_def Block_new_fields toy_genesis_hash toy_genesis_height)
qed

definition replayed_ledger :: Blockchain where
  "replayed_ledger =
     \<lparr>bc_chain = [toy_genesis, replay_block], bc_difficulty = 4, bc_miningReward = 50,
      bc_memPool = [],
      bc_utxoSet = [((''fCoinbase for block 0'', 0),
                     \<lparr>u_txId = ''fCoinbase for block 0'', u_outputIndex = 0,
                      u_address = genesis_address, u_amount = 50, u_blockHeight = 1\<rparr>)],
      bc_addressBalances = [genesis_address \<mapsto> 100],
      bc_blockTimes = [600000, - 1231006496]\<rparr>"

text \<open>
  Claim C10 fails on the ledger that admits this block: the block is admitted, the
  ledger is reachable, and the genesis address then has a balance of 100 and one
  unspent output of 50.
\<close>

theorem balance_diverges_from_index:
  "Blockchain_new toy 0 0 = Some toy_ledger
   \<and> Block_mineBlock toy (Block_new toy 9 (b_transactions (bc_chain toy_ledger ! 0))
                             (b_hash (bc_chain toy_ledger ! 0)) 1 4) None = Some replay_block
   \<and> addBlock toy True toy_ledger replay_block = Inr (True, replayed_ledger)
   \<and> reachable toy replayed_ledger
   \<and> getAddressBalance replayed_ledger genesis_address = 100
   \<and> sum_list (map u_amount (getUTXOsForAddress replayed_ledger genesis_address)) = 50"
proof -
  have st: "list_all (\<lambda>t. snd (isValid_run toy t) = t) (b_transactions replay_block)"
    by (simp add: replay_block_def with_nonce_fields replay_unmined_def Block_new_fields
        genesis_tx_def coinbase_stable)
  have ne: "bc_chain toy_ledger \<noteq> []" and l: "last (bc_chain toy_ledger) = toy_genesis"
    by (simp_all add: toy_ledger_def)
  have h: "h_height (b_header replay_block) = 1" "b_transactions replay_block = [genesis_tx]"
    "h_timestamp (b_header replay_block) = 9"
    by (simp_all add: replay_block_def with_nonce_fields replay_unmined_def Block_new_fields)
  have "addBlock toy True toy_ledger replay_block =
          Inr (True, updateBlockTimes
                 (removeTransactionsFromMemPool
                    (updateUTXOSet toy (toy_ledger\<lparr>bc_chain := bc_chain toy_ledger @ [replay_block]\<rparr>)
                       replay_block)
                    (b_transactions replay_block)) replay_block)"
    using replay_block_valid by (intro addBlock_admits ne st) (simp add: l)
  also have "updateBlockTimes
                 (removeTransactionsFromMemPool
                    (updateUTXOSet toy (toy_ledger\<lparr>bc_chain := bc_chain toy_ledger @ [replay_block]\<rparr>)
                       replay_block)
                    (b_transactions replay_block)) replay_block = replayed_ledger"
    by (simp add: h Let_def updateUTXOSet_def apply_transaction_def genesis_tx_def coinbase_fields
        spend_input_def add_output_def toy_coinbase_id decimal_digit digit_0_1 zero_hash_def
        removeTransactionsFromMemPool_def updateBlockTimes_def toy_ledger_def replayed_ledger_def
        difficultyAdjustmentInterval_def toy_genesis_def with_nonce_fields
        genesis_unmined_def)
  finally have a: "addBlock toy True toy_ledger replay_block = Inr (True, replayed_ledger)" .
  have m: "Block_mineBlock toy (Block_new toy 9 (b_transactions (bc_chain toy_ledger ! 0))
                             (b_hash (bc_chain toy_ledger ! 0)) 1 4) None = Some replay_block"
    using replay_block_mined
    by (simp add: toy_ledger_def toy_genesis_transactions toy_genesis_hash replay_unmined_def)
  have b: "getAddressBalance replayed_ledger genesis_address = 100"
    by (simp add: getAddressBalance_def replayed_ledger_def)
  have u: "sum_list (map u_amount (getUTXOsForAddress replayed_ledger genesis_address)) = 50"
    by (simp add: getUTXOsForAddress_def replayed_ledger_def)
  have re: "reachable toy replayed_ledger"
    using reachable.admit [OF reachable.init [OF toy_Blockchain_new] a] .
  from toy_Blockchain_new m a re b u show ?thesis by simp
qed

subsection \<open>Two transactions that spend the same output\<close>

text \<open>
  Claim C1 says that of two pooled transactions that refer to the same unspent output
  at most one is ever included in an admitted block. \<^verbatim>\<open>selectTransactionsForMining\<close>
  filters the pool with \<^verbatim>\<open>tx.isValid()\<close>, which does not look at the index of unspent
  outputs; neither does \<^verbatim>\<open>Block.isValid\<close> nor \<^verbatim>\<open>addBlock\<close>. Only \<^verbatim>\<open>addTransaction\<close>
  looks, and it reserves nothing.

  \<open>pay p r\<close> spends output 0 of the genesis transaction, 50, signed, and pays 40 to
  \<open>r\<close>; \<open>paid p r\<close> is the same transaction with its fee of 10 assigned, as
  \<^verbatim>\<open>isValid\<close> leaves it.
\<close>

definition pay :: "string \<Rightarrow> string \<Rightarrow> Transaction" where
  "pay payload recipient =
     Transaction_new toy 1
       [\<lparr>in_txId = ''fCoinbase for block 0'', in_outputIndex = 0, in_signature = ''sk'',
         in_publicKey = ''k'', in_amount = 50, in_scriptSig = None\<rparr>]
       [\<lparr>out_address = recipient, out_amount = 40, out_scriptPubKey = None\<rparr>]
       (Some payload)"

definition paid :: "string \<Rightarrow> string \<Rightarrow> Transaction" where
  "paid payload recipient = (pay payload recipient)\<lparr>tx_fee := 10\<rparr>"

lemma pay_id: "p \<noteq> ''go'' \<Longrightarrow> tx_id (pay p r) = CHR ''f'' # p"
  by (simp add: pay_def Transaction_new_def Let_def calculateHash_def txData_def toy_def
      toy_stringify_def toy_sha256_def property_def)

lemma pay_fields:
  "tx_inputs (pay p r) =
     [\<lparr>in_txId = ''fCoinbase for block 0'', in_outputIndex = 0, in_signature = ''sk'',
       in_publicKey = ''k'', in_amount = 50, in_scriptSig = None\<rparr>]"
  "tx_outputs (pay p r) = [\<lparr>out_address = r, out_amount = 40, out_scriptPubKey = None\<rparr>]"
  "tx_data (pay p r) = Some p"
  by (simp_all add: pay_def Transaction_new_def Let_def calculateHash_def txData_def toy_def
      toy_stringify_def toy_sha256_def property_def)

lemma paid_id: "p \<noteq> ''go'' \<Longrightarrow> tx_id (paid p r) = CHR ''f'' # p"
  by (simp add: paid_def pay_id)

lemma paid_fields:
  "tx_inputs (paid p r) =
     [\<lparr>in_txId = ''fCoinbase for block 0'', in_outputIndex = 0, in_signature = ''sk'',
       in_publicKey = ''k'', in_amount = 50, in_scriptSig = None\<rparr>]"
  "tx_outputs (paid p r) = [\<lparr>out_address = r, out_amount = 40, out_scriptPubKey = None\<rparr>]"
  "tx_fee (paid p r) = 10"
  "tx_data (paid p r) = Some p"
  by (simp_all add: paid_def pay_fields)

lemma pay_not_coinbase: "\<not> isCoinbase (pay p r)" "\<not> isCoinbase (paid p r)"
  by (simp_all add: isCoinbase_def pay_fields paid_fields zero_hash_def)

lemma pay_verifies: "verifySignatures toy (pay p r)" "verifySignatures toy (paid p r)"
  by (simp_all add: verifySignatures_def pay_fields paid_fields Signature_verify_def toy_def)

lemma paid_fee: "(pay p r)\<lparr>tx_fee := 10\<rparr> = paid p r" "(paid p r)\<lparr>tx_fee := 10\<rparr> = paid p r"
  by (simp_all add: paid_def)

lemma isValid_run_pay: "isValid_run toy (pay p r) = (True, paid p r)"
  by (simp add: isValid_run_def pay_fields pay_not_coinbase pay_verifies calculateFee_def
      computed_fee_def inputTotal_def outputTotal_def paid_fee paid_fields Let_def)

lemma isValid_run_paid: "isValid_run toy (paid p r) = (True, paid p r)"
  by (simp add: isValid_run_def paid_fields pay_not_coinbase pay_verifies calculateFee_def
      computed_fee_def inputTotal_def outputTotal_def paid_fee Let_def)

lemma getSize_paid: "getSize toy (paid p r) = length p"
  by (simp add: getSize_def Transaction_toJSON_def tx_json_def paid_fields toy_def
      toy_stringify_def property_def optional_def)

text \<open>The new ledger with one and with both transactions in the pool.\<close>

definition pool1 :: Blockchain where
  "pool1 = toy_ledger\<lparr>bc_memPool := [paid ''a'' ''bob'']\<rparr>"

definition pool2 :: Blockchain where
  "pool2 = toy_ledger\<lparr>bc_memPool := [paid ''a'' ''bob'', paid ''b'' ''carol'']\<rparr>"

lemma toy_submit1: "addTransaction toy toy_ledger (pay ''a'' ''bob'') = (True, pool1)"
  by (simp add: addTransaction_def isValid_run_pay paid_fields isTransactionInBlockchain_def paid_id
      pool1_def toy_ledger_def toy_genesis_transactions genesis_tx_id)

lemma toy_submit2: "addTransaction toy pool1 (pay ''b'' ''carol'') = (True, pool2)"
  by (simp add: addTransaction_def isValid_run_pay paid_fields isTransactionInBlockchain_def paid_id
      pool1_def pool2_def toy_ledger_def toy_genesis_transactions genesis_tx_id)

text \<open>
  The block that \<^verbatim>\<open>mineBlock\<close> assembles from that pool: the coinbase transaction,
  worth the subsidy and both fees, and both transactions.
\<close>

definition double_unmined :: Block where
  "double_unmined =
     Block_new toy 9
       [createCoinbase toy 9 ''miner'' 70 1, paid ''a'' ''bob'', paid ''b'' ''carol'']
       ''0000'' 1 4"

definition double_block :: Block where
  "double_block = updateSize toy (with_nonce 2 double_unmined)"

definition double_ledger :: Blockchain where
  "double_ledger =
     updateBlockTimes
       (removeTransactionsFromMemPool
          (updateUTXOSet toy (pool2\<lparr>bc_chain := bc_chain pool2 @ [double_block]\<rparr>) double_block)
          (b_transactions double_block)) double_block"

lemma double_block_mined: "Block_mineBlock toy double_unmined None = Some double_block"
  unfolding double_block_def
  by (rule toy_mineBlock) (simp_all add: double_unmined_def Block_new_fields)

lemma isValid_paid: "isValid toy (paid p r)"
  by (simp add: isValid_def isValid_run_paid)

lemma double_block_valid: "Block_isValid toy double_block (Some toy_genesis)"
proof -
  have "transactions_ok toy (b_transactions double_unmined)"
    by (simp add: double_unmined_def Block_new_fields transactions_ok_def createCoinbase_valid
        isValid_paid paid_fields paid_id toy_coinbase_id pay_not_coinbase)
  with mined_block_isValid_aux [OF double_block_mined, of toy_genesis] show ?thesis
    by (simp add: double_unmined_def Block_new_fields toy_genesis_hash toy_genesis_height)
qed

lemma double_block_transactions:
  "b_transactions double_block =
     [createCoinbase toy 9 ''miner'' 70 1, paid ''a'' ''bob'', paid ''b'' ''carol'']"
  by (simp add: double_block_def with_nonce_fields double_unmined_def Block_new_fields)

lemma toy_select: "selectTransactionsForMining toy 100 pool2
                   = ([paid ''a'' ''bob'', paid ''b'' ''carol''], pool2)"
  by (simp add: selectTransactionsForMining_def pool2_def isValid_run_paid feeRate_def
      getSize_paid paid_fields Let_def)

lemma toy_mine_double:
  "mineBlock toy 9 9 True pool2 ''miner'' = Some (Inr (Some double_block, double_ledger))"
proof -
  have a: "adjustDifficulty toy pool2 = pool2"
    by (simp add: adjustDifficulty_def pool2_def toy_ledger_def difficultyAdjustmentInterval_def)
  have g: "getLatestBlock pool2 = Some toy_genesis"
    by (simp add: getLatestBlock_def pool2_def toy_ledger_def)
  have r: "getBlockReward toy (Suc 0) = 50"
    by (simp add: getBlockReward_def)
  have n: "Block_new toy 9
             [createCoinbase toy 9 ''miner'' 70 (Suc 0), paid ''a'' ''bob'', paid ''b'' ''carol'']
             (b_hash toy_genesis) (Suc (h_height (b_header toy_genesis))) 4 = double_unmined"
    by (simp add: double_unmined_def toy_genesis_hash toy_genesis_height)
  have m: "Block_mineBlock toy double_unmined (Some 4) = Some double_block"
    using Block_mineBlock_Some [of toy double_unmined] double_block_mined
    by (simp add: double_unmined_def Block_new_fields)
  have l: "length (bc_chain pool2) = 1" "bc_difficulty pool2 = 4"
    by (simp_all add: pool2_def toy_ledger_def)
  have st: "list_all (\<lambda>t. snd (isValid_run toy t) = t) (b_transactions double_block)"
    by (simp add: double_block_transactions coinbase_stable isValid_run_paid)
  have ne: "bc_chain pool2 \<noteq> []" and la: "last (bc_chain pool2) = toy_genesis"
    by (simp_all add: pool2_def toy_ledger_def)
  have ad: "addBlock toy True pool2 double_block = Inr (True, double_ledger)"
    unfolding double_ledger_def using double_block_valid
    by (intro addBlock_admits ne st) (simp add: la)
  have c: "last (bc_chain double_ledger) = double_block"
    by (simp add: double_ledger_def)
  show ?thesis
    by (simp add: mineBlock_def a toy_select g r l n m ad c Let_def paid_fields)
qed

lemma double_ledger_balances:
  "bc_chain double_ledger = [toy_genesis, double_block]"
  "bc_memPool double_ledger = []"
  "getAddressBalance double_ledger ''bob'' = 40"
  "getAddressBalance double_ledger ''carol'' = 40"
  "getAddressBalance double_ledger genesis_address = 0"
  "map fst (bc_utxoSet double_ledger) =
     [(''fCoinbase for block 1'', 0), (''fa'', 0), (''fb'', 0)]"
proof -
  have h: "h_height (b_header double_block) = 1"
    by (simp add: double_block_def with_nonce_fields double_unmined_def Block_new_fields)
  define applied where "applied =
           pool2\<lparr>bc_chain := [toy_genesis, double_block],
                 bc_utxoSet := [((''fCoinbase for block 1'', 0),
                     \<lparr>u_txId = ''fCoinbase for block 1'', u_outputIndex = 0,
                      u_address = ''miner'', u_amount = 70, u_blockHeight = 1\<rparr>),
                    ((''fa'', 0),
                     \<lparr>u_txId = ''fa'', u_outputIndex = 0,
                      u_address = ''bob'', u_amount = 40, u_blockHeight = 1\<rparr>),
                    ((''fb'', 0),
                     \<lparr>u_txId = ''fb'', u_outputIndex = 0,
                      u_address = ''carol'', u_amount = 40, u_blockHeight = 1\<rparr>)],
                 bc_addressBalances := [''miner'' \<mapsto> 70, genesis_address \<mapsto> 0,
                                        ''bob'' \<mapsto> 40, ''carol'' \<mapsto> 40]\<rparr>"
  have u: "updateUTXOSet toy (pool2\<lparr>bc_chain := bc_chain pool2 @ [double_block]\<rparr>) double_block
           = applied"
    unfolding applied_def
    by (simp add: updateUTXOSet_def double_block_transactions h apply_transaction_def
        coinbase_fields paid_fields paid_id toy_coinbase_id decimal_digit digit_0_1
        spend_input_def add_output_def zero_hash_def pool2_def toy_ledger_def genesis_tx_id
        genesis_address_def Let_def)
  have d: "double_ledger =
             updateBlockTimes
               (removeTransactionsFromMemPool applied (b_transactions double_block)) double_block"
    by (simp only: double_ledger_def u)
  show "bc_chain double_ledger = [toy_genesis, double_block]"
    "bc_memPool double_ledger = []"
    "getAddressBalance double_ledger ''bob'' = 40"
    "getAddressBalance double_ledger ''carol'' = 40"
    "getAddressBalance double_ledger genesis_address = 0"
    "map fst (bc_utxoSet double_ledger) =
     [(''fCoinbase for block 1'', 0), (''fa'', 0), (''fb'', 0)]"
    unfolding d applied_def
    by (simp_all add: removeTransactionsFromMemPool_def updateBlockTimes_def
        getAddressBalance_def double_block_transactions pool2_def paid_id Let_def
        genesis_address_def toy_coinbase_id)
qed

text \<open>The selection for mining is the same whatever the index of unspent outputs holds.\<close>

lemma selectTransactionsForMining_ignores_index:
  "fst (selectTransactionsForMining env n (s\<lparr>bc_utxoSet := index\<rparr>))
   = fst (selectTransactionsForMining env n s)"
  by (simp add: selectTransactionsForMining_def Let_def)

text \<open>
  Claim C1 fails on a new ledger: both transactions are accepted into the pool, the
  next \<^verbatim>\<open>mineBlock\<close> puts both into one block, the block is admitted, and both
  recipients are credited from the one output of 50. Only afterwards is the output
  gone from the index, so that the check of \<^verbatim>\<open>addTransaction\<close> on the inputs of the
  second transaction fails.
\<close>

theorem double_spend_both_mined:
  "Blockchain_new toy 0 0 = Some toy_ledger
   \<and> map fst (bc_utxoSet toy_ledger) = [(''fCoinbase for block 0'', 0)]
   \<and> map (\<lambda>i. (in_txId i, in_outputIndex i)) (tx_inputs (pay ''a'' ''bob''))
       = [(''fCoinbase for block 0'', 0)]
   \<and> map (\<lambda>i. (in_txId i, in_outputIndex i)) (tx_inputs (pay ''b'' ''carol''))
       = [(''fCoinbase for block 0'', 0)]
   \<and> addTransaction toy toy_ledger (pay ''a'' ''bob'') = (True, pool1)
   \<and> addTransaction toy pool1 (pay ''b'' ''carol'') = (True, pool2)
   \<and> mineBlock toy 9 9 True pool2 ''miner'' = Some (Inr (Some double_block, double_ledger))
   \<and> b_transactions double_block =
       [createCoinbase toy 9 ''miner'' 70 1, paid ''a'' ''bob'', paid ''b'' ''carol'']
   \<and> bc_chain double_ledger = [toy_genesis, double_block]
   \<and> getAddressBalance double_ledger ''bob'' = 40
   \<and> getAddressBalance double_ledger ''carol'' = 40
   \<and> \<not> utxos_exist double_ledger (tx_inputs (paid ''b'' ''carol''))"
proof -
  have "set (map fst (bc_utxoSet double_ledger))
        = {(''fCoinbase for block 1'', 0), (''fa'', 0), (''fb'', 0)}"
    by (simp only: double_ledger_balances(6)) simp
  then have "(''fCoinbase for block 0'', 0) \<notin> fst ` set (bc_utxoSet double_ledger)"
    by simp
  then have "map_of (bc_utxoSet double_ledger) (''fCoinbase for block 0'', 0) = None"
    by (simp add: map_of_eq_None_iff)
  then have "\<not> utxos_exist double_ledger (tx_inputs (paid ''b'' ''carol''))"
    by (simp add: paid_fields)
  with toy_Blockchain_new toy_submit1 toy_submit2 toy_mine_double double_block_transactions
    double_ledger_balances
  show ?thesis
    by (simp add: pay_fields toy_ledger_def genesis_tx_id)
qed

end
